theory Spec2Isabelle
  imports Main
begin

section \<open>Strings\<close>

text \<open>
  Python's \<^verbatim>\<open>str.replace(old, new)\<close>: every non-overlapping occurrence of
  \<open>old\<close>, scanning from the left, is replaced by \<open>new\<close>. With an empty
  \<open>old\<close>, \<open>new\<close> is put before every character and at the end.
\<close>

function str_replace :: "string \<Rightarrow> string \<Rightarrow> string \<Rightarrow> string" where
  "str_replace old new s =
     (if old = [] then new @ concat (map (\<lambda>c. c # new) s)
      else if s = [] then []
      else if take (length old) s = old
        then new @ str_replace old new (drop (length old) s)
        else hd s # str_replace old new (tl s))"
  by pat_completeness auto
termination
  by (relation "measure (\<lambda>(old, new, s). length s)") auto

declare str_replace.simps [simp del]

section \<open>Tasks and options (core.py)\<close>

text \<open>
  \<^verbatim>\<open>class FedorableTask\<close> and \<^verbatim>\<open>class FedorableOption\<close>: four
  attributes each. The two classes have the same attribute names; the fields carry the
  class as a prefix.
\<close>

record FedorableTask =
  task_name :: string
  task_description :: string
  task_enabled :: bool
  task_flag :: string

record FedorableOption =
  option_name :: string
  option_description :: string
  option_enabled :: bool
  option_flag :: string

text \<open>
  \<^verbatim>\<open>flag or f"--no-{name.replace('_', '-')}"\<close>: the argument \<open>flag\<close> is
  \<open>None\<close> by default; \<open>None\<close> and the empty string are the falsy values of an
  optional string, and for both \<open>or\<close> yields its right operand.
\<close>

definition FedorableTask_init ::
  "string \<Rightarrow> string \<Rightarrow> bool \<Rightarrow> string option \<Rightarrow> FedorableTask" where
  "FedorableTask_init name description enabled flag =
     \<lparr> task_name = name,
       task_description = description,
       task_enabled = enabled,
       task_flag = (case flag of
                      None \<Rightarrow> ''--no-'' @ str_replace ''_'' ''-'' name
                    | Some f \<Rightarrow> if f = [] then ''--no-'' @ str_replace ''_'' ''-'' name else f) \<rparr>"

definition FedorableOption_init ::
  "string \<Rightarrow> string \<Rightarrow> bool \<Rightarrow> string option \<Rightarrow> FedorableOption" where
  "FedorableOption_init name description enabled flag =
     \<lparr> option_name = name,
       option_description = description,
       option_enabled = enabled,
       option_flag = (case flag of
                        None \<Rightarrow> ''--'' @ str_replace ''_'' ''-'' name
                      | Some f \<Rightarrow> if f = [] then ''--'' @ str_replace ''_'' ''-'' name else f) \<rparr>"

section \<open>The object store\<close>

text \<open>
  Task and option objects are mutable and are reached through references: the class-level
  dictionaries \<^verbatim>\<open>TASKS\<close> and \<^verbatim>\<open>OPTIONS\<close> and the dictionaries of every
  instance hold references, not values. The store maps an address to the object there;
  \<open>next_addr\<close> is the first address never handed out, so a constructor call takes
  \<open>next_addr\<close> and moves it on.
\<close>

type_synonym addr = nat

record heap =
  task_at :: "addr \<Rightarrow> FedorableTask"
  option_at :: "addr \<Rightarrow> FedorableOption"
  next_addr :: addr

definition new_task :: "FedorableTask \<Rightarrow> heap \<Rightarrow> addr \<times> heap" where
  "new_task t h =
     (next_addr h, h\<lparr> task_at := (task_at h)(next_addr h := t), next_addr := Suc (next_addr h) \<rparr>)"

definition new_option :: "FedorableOption \<Rightarrow> heap \<Rightarrow> addr \<times> heap" where
  "new_option opt h =
     (next_addr h, h\<lparr> option_at := (option_at h)(next_addr h := opt), next_addr := Suc (next_addr h) \<rparr>)"

text \<open>
  A dictionary with string keys is an association list in insertion order, its keys
  distinct. The module state of \<^verbatim>\<open>core.py\<close>: \<^verbatim>\<open>DEFAULT_SCRIPT_PATH\<close>
  (computed from the location of the installed file) and the two class attributes.
\<close>

record core_module =
  DEFAULT_SCRIPT_PATH :: string
  TASKS :: "(string \<times> addr) list"
  OPTIONS :: "(string \<times> addr) list"

record FedorableCore =
  script_path :: string
  tasks :: "(string \<times> addr) list"
  options :: "(string \<times> addr) list"

text \<open>
  The dictionary comprehensions of \<^verbatim>\<open>FedorableCore.__init__\<close>: for every item of
  the class-level dictionary, in order, a new object is constructed from the name, the
  description and the enabled state of the registered one; no flag is passed.
\<close>

fun copy_tasks :: "(string \<times> addr) list \<Rightarrow> heap \<Rightarrow> (string \<times> addr) list \<times> heap" where
  "copy_tasks [] h = ([], h)"
| "copy_tasks ((name, a) # items) h =
     (let task = task_at h a;
          (a', h') = new_task (FedorableTask_init (task_name task) (task_description task)
                                 (task_enabled task) None) h;
          (rest, h'') = copy_tasks items h'
      in ((name, a') # rest, h''))"

fun copy_options :: "(string \<times> addr) list \<Rightarrow> heap \<Rightarrow> (string \<times> addr) list \<times> heap" where
  "copy_options [] h = ([], h)"
| "copy_options ((name, a) # items) h =
     (let option = option_at h a;
          (a', h') = new_option (FedorableOption_init (option_name option)
                                   (option_description option) (option_enabled option) None) h;
          (rest, h'') = copy_options items h'
      in ((name, a') # rest, h''))"

text \<open>
  \<^verbatim>\<open>self.script_path = script_path or DEFAULT_SCRIPT_PATH\<close>: \<open>None\<close> and the
  empty string select the default.
\<close>

definition FedorableCore_init ::
  "core_module \<Rightarrow> string option \<Rightarrow> heap \<Rightarrow> FedorableCore \<times> heap" where
  "FedorableCore_init m path h =
     (let (ts, h1) = copy_tasks (TASKS m) h;
          (os, h2) = copy_options (OPTIONS m) h1
      in (\<lparr> script_path = (case path of
                              None \<Rightarrow> DEFAULT_SCRIPT_PATH m
                            | Some p \<Rightarrow> if p = [] then DEFAULT_SCRIPT_PATH m else p),
            tasks = ts,
            options = os \<rparr>, h2))"

text \<open>
  The class body of \<^verbatim>\<open>FedorableCore\<close> runs once, when the module is loaded: it
  constructs the eleven registered tasks and the four registered options, none with an
  explicit flag, and binds them under their names.
\<close>

fun new_tasks :: "(string \<times> FedorableTask) list \<Rightarrow> heap \<Rightarrow> (string \<times> addr) list \<times> heap" where
  "new_tasks [] h = ([], h)"
| "new_tasks ((key, t) # items) h =
     (let (a, h') = new_task t h;
          (rest, h'') = new_tasks items h'
      in ((key, a) # rest, h''))"

fun new_options :: "(string \<times> FedorableOption) list \<Rightarrow> heap \<Rightarrow> (string \<times> addr) list \<times> heap" where
  "new_options [] h = ([], h)"
| "new_options ((key, opt) # items) h =
     (let (a, h') = new_option opt h;
          (rest, h'') = new_options items h'
      in ((key, a) # rest, h''))"

definition TASKS_literal :: "(string \<times> FedorableTask) list" where
  "TASKS_literal =
     [(''update'', FedorableTask_init ''update'' ''Update System Packages'' True None),
      (''autoremove'', FedorableTask_init ''autoremove'' ''Autoremove Unused Packages'' True None),
      (''clean_dnf'', FedorableTask_init ''clean_dnf'' ''Clean DNF Cache'' True None),
      (''clean_kernels'', FedorableTask_init ''clean_kernels'' ''Remove Old Kernels'' True None),
      (''clean_journal'', FedorableTask_init ''clean_journal'' ''Clean System Journal'' True None),
      (''clean_temp'', FedorableTask_init ''clean_temp'' ''Clean Temporary Files'' True None),
      (''update_grub'', FedorableTask_init ''update_grub'' ''Update GRUB/Bootloader'' True None),
      (''clean_flatpak'', FedorableTask_init ''clean_flatpak'' ''Clean/Update Flatpak'' True None),
      (''optimize_rpmdb'', FedorableTask_init ''optimize_rpmdb'' ''Optimize RPM Database'' True None),
      (''reset_failed_units'',
         FedorableTask_init ''reset_failed_units'' ''Reset Failed Systemd Units'' True None),
      (''trim'', FedorableTask_init ''trim'' ''Run SSD TRIM'' True None)]"

definition OPTIONS_literal :: "(string \<times> FedorableOption) list" where
  "OPTIONS_literal =
     [(''yes'', FedorableOption_init ''yes'' (''Assume '' @ [CHR 0x27] @ ''Yes'' @ [CHR 0x27] @ '' to prompts'') False None),
      (''dry_run'', FedorableOption_init ''dry_run'' ''Dry Run (No changes made)'' False None),
      (''check_only'', FedorableOption_init ''check_only'' ''Check for Updates Only'' False None),
      (''quiet'', FedorableOption_init ''quiet'' ''Quiet Mode (Less output)'' False None)]"

text \<open>The store before the module is loaded; the objects at unused addresses are never read.\<close>

definition empty_heap :: heap where
  "empty_heap =
     \<lparr> task_at = (\<lambda>a. \<lparr> task_name = [], task_description = [], task_enabled = False,
                           task_flag = [] \<rparr>),
       option_at = (\<lambda>a. \<lparr> option_name = [], option_description = [], option_enabled = False,
                             option_flag = [] \<rparr>),
       next_addr = 0 \<rparr>"

definition load_core_module :: "string \<Rightarrow> heap \<Rightarrow> core_module \<times> heap" where
  "load_core_module default_path h =
     (let (ts, h1) = new_tasks TASKS_literal h;
          (os, h2) = new_options OPTIONS_literal h1
      in (\<lparr> DEFAULT_SCRIPT_PATH = default_path, TASKS = ts, OPTIONS = os \<rparr>, h2))"

section \<open>The command line (FedorableCore.build_command)\<close>

text \<open>The two loops append to the list \<open>command\<close>, one item of the dictionary at a time.\<close>

fun append_disabled_tasks :: "heap \<Rightarrow> (string \<times> addr) list \<Rightarrow> string list \<Rightarrow> string list" where
  "append_disabled_tasks h [] command = command"
| "append_disabled_tasks h ((name, a) # items) command =
     append_disabled_tasks h items
       (if \<not> task_enabled (task_at h a) then command @ [task_flag (task_at h a)] else command)"

fun append_enabled_options :: "heap \<Rightarrow> (string \<times> addr) list \<Rightarrow> string list \<Rightarrow> string list" where
  "append_enabled_options h [] command = command"
| "append_enabled_options h ((name, a) # items) command =
     append_enabled_options h items
       (if option_enabled (option_at h a) then command @ [option_flag (option_at h a)] else command)"

definition build_command :: "heap \<Rightarrow> FedorableCore \<Rightarrow> bool \<Rightarrow> string list" where
  "build_command h c use_pkexec =
     append_enabled_options h (options c)
       (append_disabled_tasks h (tasks c)
          (if use_pkexec then [''pkexec'', script_path c] else [script_path c]))"

text \<open>
  The token sequence as the specification words it: the flags of the disabled tasks and of
  the enabled options, each in dictionary order.
\<close>

definition disabled_task_flags :: "heap \<Rightarrow> FedorableCore \<Rightarrow> string list" where
  "disabled_task_flags h c =
     map (\<lambda>(name, a). task_flag (task_at h a))
       (filter (\<lambda>(name, a). \<not> task_enabled (task_at h a)) (tasks c))"

definition enabled_option_flags :: "heap \<Rightarrow> FedorableCore \<Rightarrow> string list" where
  "enabled_option_flags h c =
     map (\<lambda>(name, a). option_flag (option_at h a))
       (filter (\<lambda>(name, a). option_enabled (option_at h a)) (options c))"

section \<open>Setting the enabled state by name (cli.py, main.py)\<close>

datatype error =
  KeyError string
| FileNotFoundError string
| PermissionError string
| OSError string

text \<open>
  The statement \<^verbatim>\<open>core.tasks[name].enabled = value\<close>. The subscript is evaluated
  first and raises \<open>KeyError\<close> for a missing key, before anything is assigned. The
  result is the exception raised, if any, and the store afterwards.
\<close>

definition set_task_enabled :: "FedorableCore \<Rightarrow> string \<Rightarrow> bool \<Rightarrow> heap \<Rightarrow> error option \<times> heap" where
  "set_task_enabled c name value h =
     (case map_of (tasks c) name of
        None \<Rightarrow> (Some (KeyError name), h)
      | Some a \<Rightarrow> (None, h\<lparr> task_at := (task_at h)(a := (task_at h a)\<lparr> task_enabled := value \<rparr>) \<rparr>))"

definition set_option_enabled :: "FedorableCore \<Rightarrow> string \<Rightarrow> bool \<Rightarrow> heap \<Rightarrow> error option \<times> heap" where
  "set_option_enabled c name value h =
     (case map_of (options c) name of
        None \<Rightarrow> (Some (KeyError name), h)
      | Some a \<Rightarrow> (None, h\<lparr> option_at := (option_at h)(a := (option_at h a)\<lparr> option_enabled := value \<rparr>) \<rparr>))"

text \<open>A \<^verbatim>\<open>for\<close> loop over a list: an exception in the body ends the loop.\<close>

fun for_each :: "('a \<Rightarrow> heap \<Rightarrow> error option \<times> heap) \<Rightarrow> 'a list \<Rightarrow> heap \<Rightarrow> error option \<times> heap" where
  "for_each body [] h = (None, h)"
| "for_each body (x # xs) h =
     (case body x h of
        (Some e, h') \<Rightarrow> (Some e, h')
      | (None, h') \<Rightarrow> for_each body xs h')"

text \<open>
  \<^verbatim>\<open>FedorableMainWindow.build_command\<close> (main.py). The dictionaries
  \<open>task_checkboxes\<close> and \<open>option_switches\<close> are given as key and
  \<^verbatim>\<open>get_active()\<close> of the widget. Each assignment is guarded by
  \<^verbatim>\<open>if key in self.fedorable.tasks\<close>.
\<close>

definition guarded_set_task :: "FedorableCore \<Rightarrow> string \<times> bool \<Rightarrow> heap \<Rightarrow> error option \<times> heap" where
  "guarded_set_task c = (\<lambda>(key, active) h.
     if key \<in> set (map fst (tasks c)) then set_task_enabled c key active h else (None, h))"

definition guarded_set_option :: "FedorableCore \<Rightarrow> string \<times> bool \<Rightarrow> heap \<Rightarrow> error option \<times> heap" where
  "guarded_set_option c = (\<lambda>(key, active) h.
     if key \<in> set (map fst (options c)) then set_option_enabled c key active h else (None, h))"

definition MainWindow_build_command ::
  "FedorableCore \<Rightarrow> (string \<times> bool) list \<Rightarrow> (string \<times> bool) list \<Rightarrow> heap
     \<Rightarrow> (error + string list) \<times> heap" where
  "MainWindow_build_command c task_checkboxes option_switches h =
     (case for_each (guarded_set_task c) task_checkboxes h of
        (Some e, h1) \<Rightarrow> (Inl e, h1)
      | (None, h1) \<Rightarrow>
          (case for_each (guarded_set_option c) option_switches h1 of
             (Some e, h2) \<Rightarrow> (Inl e, h2)
           | (None, h2) \<Rightarrow> (Inr (build_command h2 c True), h2)))"

text \<open>
  \<^verbatim>\<open>setup_fedorable_core(args)\<close> (cli.py). The parsed arguments: the script
  path, the three switches, and the attributes \<^verbatim>\<open>task_<name>\<close> and
  \<^verbatim>\<open>option_<name>\<close> of the namespace, looked up by attribute name. \<open>None\<close>
  is a missing attribute (\<^verbatim>\<open>hasattr\<close> is false), \<open>Some None\<close> an attribute
  whose value is \<^verbatim>\<open>None\<close>.
\<close>

record cli_args =
  arg_script_path :: string
  arg_no_pkexec :: bool
  arg_all :: bool
  arg_none :: bool
  arg_attr :: "string \<Rightarrow> bool option option"

definition apply_task_arg :: "cli_args \<Rightarrow> FedorableCore \<Rightarrow> string \<Rightarrow> heap \<Rightarrow> error option \<times> heap" where
  "apply_task_arg args c name h =
     (case arg_attr args (''task_'' @ name) of
        Some (Some value) \<Rightarrow> set_task_enabled c name value h
      | _ \<Rightarrow> (None, h))"

definition apply_option_arg :: "cli_args \<Rightarrow> FedorableCore \<Rightarrow> string \<Rightarrow> heap \<Rightarrow> error option \<times> heap" where
  "apply_option_arg args c name h =
     (case arg_attr args (''option_'' @ name) of
        Some (Some True) \<Rightarrow> set_option_enabled c name True h
      | _ \<Rightarrow> (None, h))"

definition apply_preset :: "cli_args \<Rightarrow> FedorableCore \<Rightarrow> heap \<Rightarrow> error option \<times> heap" where
  "apply_preset args c h =
     (if arg_all args then for_each (\<lambda>name. set_task_enabled c name True) (map fst (tasks c)) h
      else if arg_none args then for_each (\<lambda>name. set_task_enabled c name False) (map fst (tasks c)) h
      else (None, h))"

definition setup_fedorable_core :: "core_module \<Rightarrow> cli_args \<Rightarrow> heap \<Rightarrow> (error + FedorableCore) \<times> heap" where
  "setup_fedorable_core m args h =
     (let (c, h0) = FedorableCore_init m (Some (arg_script_path args)) h in
      case apply_preset args c h0 of
        (Some e, h1) \<Rightarrow> (Inl e, h1)
      | (None, h1) \<Rightarrow>
          (case for_each (apply_task_arg args c) (map fst (tasks c)) h1 of
             (Some e, h2) \<Rightarrow> (Inl e, h2)
           | (None, h2) \<Rightarrow>
               (case for_each (apply_option_arg args c) (map fst (options c)) h2 of
                  (Some e, h3) \<Rightarrow> (Inl e, h3)
                | (None, h3) \<Rightarrow> (Inr c, h3))))"

text \<open>What a dictionary shows to its reader: every key with the object under it.\<close>

definition task_states :: "heap \<Rightarrow> (string \<times> addr) list \<Rightarrow> (string \<times> FedorableTask) list" where
  "task_states h items = map (\<lambda>(key, a). (key, task_at h a)) items"

definition option_states :: "heap \<Rightarrow> (string \<times> addr) list \<Rightarrow> (string \<times> FedorableOption) list" where
  "option_states h items = map (\<lambda>(key, a). (key, option_at h a)) items"

section \<open>Running the script (FedorableCore.run)\<close>

text \<open>
  The script is an opaque executable: started with an argument vector, it writes to its
  two output streams in some order, may close a stream, and exits with a code. What it
  writes is taken line by line: a line is its text without the line end, and the line end
  the child wrote (only the last line of a stream may have none); the text of a line holds
  no line end and no NUL character. Bytes that are not text in the encoding of the locale,
  taken to be UTF-8, are a piece of their own.
  \<open>True\<close> marks what goes to standard error. A child killed by a signal, and
  descendants of the child that keep a pipe open after it, are not modelled.
\<close>

datatype terminator = LF | CRLF | CR | NoTerminator

datatype child_action = Line string terminator | Undecodable | EndOfStream

record child =
  writes :: "(bool \<times> child_action) list"
  exit_code :: nat


text \<open>
  The line as iteration over a pipe opened with \<^verbatim>\<open>text=True\<close> yields it: every
  line end is handed over as a line feed (universal newlines).
\<close>

definition python_text :: "string \<Rightarrow> terminator \<Rightarrow> string" where
  "python_text body t = body @ (case t of NoTerminator \<Rightarrow> [] | _ \<Rightarrow> [CHR 0x0A])"

text \<open>
  What is in a pipe: lines, and pieces that cannot be decoded (\<open>None\<close>). \<open>written\<close> is
  what a child that runs to its end puts into one stream: everything it writes there
  before it closes the stream.
\<close>

type_synonym chunk = "(string \<times> terminator) option"


text \<open>What the reader of a pipe can get out of these pieces: the line it yields, or none.\<close>

definition decoded :: "chunk list \<Rightarrow> string option list" where
  "decoded cs = map (map_option (\<lambda>(body, t). python_text body t)) cs"

text \<open>
  The operating system as the program sees it: \<^verbatim>\<open>os.path.exists\<close>,
  \<^verbatim>\<open>os.access(path, os.X_OK)\<close>, what starting a process with an argument vector
  gives (the child, or the exception that \<^verbatim>\<open>Popen\<close> raises when the process
  cannot be started: \<open>FileNotFoundError\<close>, \<open>PermissionError\<close> or another
  \<open>OSError\<close>), and the argument vectors of the processes started so far.
\<close>

record os_state =
  path_exists :: "string \<Rightarrow> bool"
  access_x :: "string \<Rightarrow> bool"
  program :: "string list \<Rightarrow> error + child"
  launched :: "string list list"

definition is_script_executable :: "os_state \<Rightarrow> FedorableCore \<Rightarrow> bool" where
  "is_script_executable os c = (path_exists os (script_path c) \<and> access_x os (script_path c))"

text \<open>
  \<^verbatim>\<open>_run_with_callback\<close> runs four activities at once: the main thread, the child
  process and the two reader threads. The state after \<^verbatim>\<open>Popen\<close> has returned holds
  where the main thread is, what the child has still to do and whether it has exited,
  what is in each pipe (written, not yet read) and whether the child's end of it is
  closed, the state of each reader thread, and the calls of \<open>callback\<close> made so far,
  each with its line and its \<open>is_stderr\<close>. A reader thread has \<open>Finished\<close> when its
  loop has reached the end of the stream; it has \<open>Died\<close> when an exception has ended it.
\<close>

datatype main_pc =
  StartStdoutReader
| StartStderrReader
| WaitProcess
| JoinStdoutReader
| JoinStderrReader
| Done int

datatype reader_state = NotStarted | Reading | Finished | Died

record run_state =
  main :: main_pc
  child_todo :: "(bool \<times> child_action) list"
  child_exited :: bool
  child_code :: nat
  stdout_pipe :: "chunk list"
  stderr_pipe :: "chunk list"
  stdout_closed :: bool
  stderr_closed :: bool
  stdout_reader :: reader_state
  stderr_reader :: reader_state
  callback_calls :: "(string \<times> bool) list"

definition initial_state :: "child \<Rightarrow> run_state" where
  "initial_state ch =
     \<lparr> main = StartStdoutReader, child_todo = writes ch, child_exited = False,
       child_code = exit_code ch, stdout_pipe = [], stderr_pipe = [],
       stdout_closed = False, stderr_closed = False,
       stdout_reader = NotStarted, stderr_reader = NotStarted, callback_calls = [] \<rparr>"

definition ended :: "reader_state \<Rightarrow> bool" where
  "ended r = (r = Finished \<or> r = Died)"

text \<open>
  The main thread: the loop over the two pipes starts one thread per turn,
  \<^verbatim>\<open>process.wait()\<close> returns once the child has exited, and each
  \<^verbatim>\<open>thread.join()\<close> returns once that thread has ended, in whichever way.
  \<open>None\<close>: the thread cannot go on in this state.
\<close>

definition main_step :: "run_state \<Rightarrow> run_state option" where
  "main_step s =
     (case main s of
        StartStdoutReader \<Rightarrow> Some (s\<lparr> stdout_reader := Reading, main := StartStderrReader \<rparr>)
      | StartStderrReader \<Rightarrow> Some (s\<lparr> stderr_reader := Reading, main := WaitProcess \<rparr>)
      | WaitProcess \<Rightarrow> if child_exited s then Some (s\<lparr> main := JoinStdoutReader \<rparr>) else None
      | JoinStdoutReader \<Rightarrow>
          if ended (stdout_reader s) then Some (s\<lparr> main := JoinStderrReader \<rparr>) else None
      | JoinStderrReader \<Rightarrow>
          if ended (stderr_reader s) then Some (s\<lparr> main := Done (int (child_code s)) \<rparr>) else None
      | Done rc \<Rightarrow> None)"

text \<open>
  The child does the next thing on its list: it writes a piece into the pipe of that
  stream (into a stream it has closed it writes nothing) or closes the stream; after the
  last it exits, which closes both streams.
\<close>

definition child_step :: "run_state \<Rightarrow> run_state option" where
  "child_step s =
     (if child_exited s then None
      else case child_todo s of
        [] \<Rightarrow> Some (s\<lparr> child_exited := True, stdout_closed := True, stderr_closed := True \<rparr>)
      | (is_stderr, out) # rest \<Rightarrow>
          (case out of
             EndOfStream \<Rightarrow>
               if is_stderr then Some (s\<lparr> child_todo := rest, stderr_closed := True \<rparr>)
               else Some (s\<lparr> child_todo := rest, stdout_closed := True \<rparr>)
           | _ \<Rightarrow>
               (let piece = (case out of Line body t \<Rightarrow> Some (body, t) | _ \<Rightarrow> None)
                in if is_stderr
                   then if stderr_closed s then Some (s\<lparr> child_todo := rest \<rparr>)
                        else Some (s\<lparr> child_todo := rest, stderr_pipe := stderr_pipe s @ [piece] \<rparr>)
                   else if stdout_closed s then Some (s\<lparr> child_todo := rest \<rparr>)
                        else Some (s\<lparr> child_todo := rest, stdout_pipe := stdout_pipe s @ [piece] \<rparr>))))"

text \<open>
  \<^verbatim>\<open>_read_output\<close>: \<^verbatim>\<open>for line in pipe: callback(line, is_stderr)\<close>, with
  nothing around it that would catch an exception. The loop takes the next line of the
  pipe and calls \<open>callback\<close>; the caller's \<open>callback\<close> is given as the predicate that
  says for which calls it raises, and a call that raises ends the thread. Bytes that
  the strict decoder of the pipe refuses raise \<open>UnicodeDecodeError\<close>, which ends the
  thread as well. The loop ends at the end of the stream: the pipe is empty and the
  child's end of it is closed.
\<close>

definition stdout_reader_step :: "(string \<Rightarrow> bool \<Rightarrow> bool) \<Rightarrow> run_state \<Rightarrow> run_state option" where
  "stdout_reader_step callback s =
     (if stdout_reader s \<noteq> Reading then None
      else case stdout_pipe s of
        Some (body, t) # rest \<Rightarrow>
          Some (s\<lparr> stdout_pipe := rest,
                 callback_calls := callback_calls s @ [(python_text body t, False)],
                 stdout_reader := (if callback (python_text body t) False then Died else Reading) \<rparr>)
      | None # rest \<Rightarrow> Some (s\<lparr> stdout_reader := Died \<rparr>)
      | [] \<Rightarrow> if stdout_closed s then Some (s\<lparr> stdout_reader := Finished \<rparr>) else None)"

definition stderr_reader_step :: "(string \<Rightarrow> bool \<Rightarrow> bool) \<Rightarrow> run_state \<Rightarrow> run_state option" where
  "stderr_reader_step callback s =
     (if stderr_reader s \<noteq> Reading then None
      else case stderr_pipe s of
        Some (body, t) # rest \<Rightarrow>
          Some (s\<lparr> stderr_pipe := rest,
                 callback_calls := callback_calls s @ [(python_text body t, True)],
                 stderr_reader := (if callback (python_text body t) True then Died else Reading) \<rparr>)
      | None # rest \<Rightarrow> Some (s\<lparr> stderr_reader := Died \<rparr>)
      | [] \<Rightarrow> if stderr_closed s then Some (s\<lparr> stderr_reader := Finished \<rparr>) else None)"

text \<open>
  The pipe is read and decoded in blocks, ahead of the line the loop is at: bytes that
  cannot be decoded anywhere in what the pipe holds can end the thread before the lines
  in front of them have been handed over.
\<close>

definition stdout_ahead_step :: "run_state \<Rightarrow> run_state option" where
  "stdout_ahead_step s =
     (if stdout_reader s = Reading \<and> None \<in> set (stdout_pipe s)
      then Some (s\<lparr> stdout_reader := Died \<rparr>) else None)"

definition stderr_ahead_step :: "run_state \<Rightarrow> run_state option" where
  "stderr_ahead_step s =
     (if stderr_reader s = Reading \<and> None \<in> set (stderr_pipe s)
      then Some (s\<lparr> stderr_reader := Died \<rparr>) else None)"

datatype actor =
  MainThread | ChildProcess | StdoutReader | StderrReader | StdoutAhead | StderrAhead

fun step :: "(string \<Rightarrow> bool \<Rightarrow> bool) \<Rightarrow> actor \<Rightarrow> run_state \<Rightarrow> run_state option" where
  "step callback MainThread s = main_step s"
| "step callback ChildProcess s = child_step s"
| "step callback StdoutReader s = stdout_reader_step callback s"
| "step callback StderrReader s = stderr_reader_step callback s"
| "step callback StdoutAhead s = stdout_ahead_step s"
| "step callback StderrAhead s = stderr_ahead_step s"

text \<open>
  A schedule names who moves next, any number of times in any order; a turn given to an
  activity that cannot go on changes nothing.
\<close>

fun exec :: "(string \<Rightarrow> bool \<Rightarrow> bool) \<Rightarrow> actor list \<Rightarrow> run_state \<Rightarrow> run_state" where
  "exec callback [] s = s"
| "exec callback (a # sched) s =
     exec callback sched (case step callback a s of None \<Rightarrow> s | Some s' \<Rightarrow> s')"

text \<open>
  The outcome of a call: it returns a value, it raises, or, at the end of the schedule,
  it has not returned yet.
\<close>

datatype outcome = Returned int | Raised error | Pending

record run_result =
  outcome :: outcome
  calls :: "(string \<times> bool) list"
  os_after :: os_state

definition run_with_callback ::
  "actor list \<Rightarrow> string list \<Rightarrow> (string \<Rightarrow> bool \<Rightarrow> bool) \<Rightarrow> os_state \<Rightarrow> run_result" where
  "run_with_callback sched command callback os =
     (case program os command of
        Inl e \<Rightarrow> \<lparr> outcome = Raised e, calls = [], os_after = os \<rparr>
      | Inr ch \<Rightarrow>
          (let s = exec callback sched (initial_state ch)
           in \<lparr> outcome = (case main s of Done rc \<Rightarrow> Returned rc | _ \<Rightarrow> Pending),
                calls = callback_calls s,
                os_after = os\<lparr> launched := launched os @ [command] \<rparr> \<rparr>))"

text \<open>
  \<^verbatim>\<open>subprocess.call(command)\<close>: the child inherits the streams of the program, so
  nothing is read; the call returns the exit code.
\<close>

definition subprocess_call :: "string list \<Rightarrow> os_state \<Rightarrow> run_result" where
  "subprocess_call command os =
     (case program os command of
        Inl e \<Rightarrow> \<lparr> outcome = Raised e, calls = [], os_after = os \<rparr>
      | Inr ch \<Rightarrow>
          \<lparr> outcome = Returned (int (exit_code ch)), calls = [],
            os_after = os\<lparr> launched := launched os @ [command] \<rparr> \<rparr>)"

text \<open>
  \<^verbatim>\<open>FedorableCore.run(use_pkexec, callback)\<close>; \<open>callback\<close> is \<open>None\<close> when
  none was given. The method reads the store and assigns to nothing in it.
\<close>

definition run ::
  "actor list \<Rightarrow> heap \<Rightarrow> FedorableCore \<Rightarrow> bool \<Rightarrow> (string \<Rightarrow> bool \<Rightarrow> bool) option \<Rightarrow> os_state
     \<Rightarrow> run_result" where
  "run sched h c use_pkexec callback os =
     (if \<not> is_script_executable os c
      then \<lparr> outcome = Raised (FileNotFoundError
                (''Script not found or not executable: '' @ script_path c)),
             calls = [], os_after = os \<rparr>
      else (let command = build_command h c use_pkexec
            in case callback of
                 Some f \<Rightarrow> run_with_callback sched command f os
               | None \<Rightarrow> subprocess_call command os))"

text \<open>The lines of one stream among the calls of the callback.\<close>

definition delivered :: "bool \<Rightarrow> (string \<times> bool) list \<Rightarrow> string list" where
  "delivered is_stderr cs = map fst (filter (\<lambda>(line, e). e = is_stderr) cs)"

text \<open>
  A schedule under which every call returns: the child does everything and exits, the
  main thread starts both readers, each reader is given turns until it has ended, and
  the main thread passes the wait and both joins.
\<close>

definition drain_schedule :: "child \<Rightarrow> actor list" where
  "drain_schedule ch =
     replicate (Suc (length (writes ch))) ChildProcess @ [MainThread, MainThread]
       @ replicate (Suc (length (writes ch))) StdoutReader
       @ replicate (Suc (length (writes ch))) StderrReader
       @ [MainThread, MainThread, MainThread]"





section \<open>The two front ends (cli.py, main.py)\<close>




text \<open>
  What \<^verbatim>\<open>append_output\<close> is called with: the line that shows the command, text of
  the child, the line that reports a failed communication, or one of the two closing
  lines. The flag beside it is \<open>True\<close> for the tag \<open>stderr_tag\<close>.
\<close>

datatype gui_text =
  RunningCommand "string list"
| ChildData string
| CommunicationError
| FinishedSuccessfully
| Failed int







text \<open>
  Children and systems for the examples: a child that writes \<open>A\<close> to standard output
  and \<open>B\<close> to standard error and exits with 0; one that writes two lines to standard
  output; one that ends its line the way of a different system; one that writes a byte
  that is no text between two lines; one that complains and exits with 7; a callback
  that never raises and one that always does; a system where every path is an executable
  file and every command starts the given child; and one where the script is a file
  without the executable bit.
\<close>

definition example_child :: child where
  "example_child = \<lparr> writes = [(False, Line ''A'' LF), (True, Line ''B'' LF)], exit_code = 0 \<rparr>"





definition quiet_callback :: "string \<Rightarrow> bool \<Rightarrow> bool" where
  "quiet_callback line is_stderr = False"



definition not_executable_os :: os_state where
  "not_executable_os =
     \<lparr> path_exists = (\<lambda>path. True), access_x = (\<lambda>path. False),
       program = (\<lambda>command. Inr example_child), launched = [] \<rparr>"

text \<open>The constructor calls of the two comprehensions, as functions of the registered object.\<close>

definition copy_of_task :: "FedorableTask \<Rightarrow> FedorableTask" where
  "copy_of_task t = FedorableTask_init (task_name t) (task_description t) (task_enabled t) None"

definition copy_of_option :: "FedorableOption \<Rightarrow> FedorableOption" where
  "copy_of_option opt =
     FedorableOption_init (option_name opt) (option_description opt) (option_enabled opt) None"

text \<open>
  The flags of an instance, in dictionary order, and the flags the class body gives the
  registered tasks and options.
\<close>

definition task_flags :: "heap \<Rightarrow> FedorableCore \<Rightarrow> string list" where
  "task_flags h c = map (\<lambda>(key, a). task_flag (task_at h a)) (tasks c)"

definition option_flags :: "heap \<Rightarrow> FedorableCore \<Rightarrow> string list" where
  "option_flags h c = map (\<lambda>(key, a). option_flag (option_at h a)) (options c)"

definition registry_task_flags :: "string list" where
  "registry_task_flags = map (\<lambda>(key, t). task_flag t) TASKS_literal"

definition registry_option_flags :: "string list" where
  "registry_option_flags = map (\<lambda>(key, opt). option_flag opt) OPTIONS_literal"

text \<open>
  An instance of the program: its dictionaries carry the flags of the registry, in the
  registry's order. Every instance made from the loaded module is one, whatever has been
  enabled or disabled since.
\<close>

definition has_registry_flags :: "heap \<Rightarrow> FedorableCore \<Rightarrow> bool" where
  "has_registry_flags h c =
     (task_flags h c = registry_task_flags \<and> option_flags h c = registry_option_flags)"

text \<open>Every reference of the module's two dictionaries is to an object constructed before.\<close>

definition module_allocated :: "core_module \<Rightarrow> heap \<Rightarrow> bool" where
  "module_allocated m h =
     ((\<forall>(key, a) \<in> set (TASKS m). a < next_addr h) \<and> (\<forall>(key, a) \<in> set (OPTIONS m). a < next_addr h))"

definition hyphenate :: "string \<Rightarrow> string" where
  "hyphenate name = map (\<lambda>c. if c = CHR ''_'' then CHR ''-'' else c) name"

text \<open>
  The flags of an instance are the derived ones: \<open>--no-\<close> and the hyphenated name for a
  task, \<open>--\<close> and the hyphenated name for an option.
\<close>

definition derived_flags :: "heap \<Rightarrow> FedorableCore \<Rightarrow> bool" where
  "derived_flags h c =
     ((\<forall>(key, a) \<in> set (tasks c).
         task_flag (task_at h a) = ''--no-'' @ hyphenate (task_name (task_at h a))) \<and>
      (\<forall>(key, a) \<in> set (options c).
         option_flag (option_at h a) = ''--'' @ hyphenate (option_name (option_at h a))))"

text \<open>Two stores show the same objects under the given task and option dictionaries.\<close>

definition same_states ::
  "heap \<Rightarrow> heap \<Rightarrow> (string \<times> addr) list \<Rightarrow> (string \<times> addr) list \<Rightarrow> bool" where
  "same_states h h' ts os =
     (task_states h' ts = task_states h ts \<and> option_states h' os = option_states h os)"

text \<open>What no assignment to an enabled state changes: every name and every flag.\<close>

definition same_names_flags :: "heap \<Rightarrow> heap \<Rightarrow> bool" where
  "same_names_flags h h' =
     ((\<forall>a. task_name (task_at h' a) = task_name (task_at h a) \<and>
           task_flag (task_at h' a) = task_flag (task_at h a)) \<and>
      (\<forall>a. option_name (option_at h' a) = option_name (option_at h a) \<and>
           option_flag (option_at h' a) = option_flag (option_at h a)))"

text \<open>
  A run of the program for the examples: the module is loaded into the empty store, then
  an instance is made for the given path; a second instance is made after the one with the
  default path.
\<close>

definition example_loaded :: "core_module \<times> heap" where
  "example_loaded = load_core_module ''/usr/share/fedorable/fedorable.sh'' empty_heap"

definition example_instance :: "string option \<Rightarrow> FedorableCore \<times> heap" where
  "example_instance path = FedorableCore_init (fst example_loaded) path (snd example_loaded)"

definition example_second :: "FedorableCore \<times> heap" where
  "example_second =
     FedorableCore_init (fst example_loaded) (Some ''/tmp/fedorable.sh'') (snd (example_instance None))"

text \<open>
  A module whose registered task and option were constructed with flags of their own.
\<close>

definition override_heap :: heap where
  "override_heap =
     snd (new_option (FedorableOption_init ''dry_run'' ''Dry Run'' False (Some ''-n''))
       (snd (new_task (FedorableTask_init ''clean_dnf'' ''Clean DNF Cache'' True (Some ''--skip-dnf''))
          empty_heap)))"

definition override_module :: core_module where
  "override_module =
     \<lparr> DEFAULT_SCRIPT_PATH = ''/usr/share/fedorable/fedorable.sh'',
       TASKS = [(''clean_dnf'', 0)],
       OPTIONS = [(''dry_run'', 1)] \<rparr>"

section \<open>Properties\<close>

lemma str_replace_underscores:
  "str_replace ''_'' ''-'' s = map (\<lambda>c. if c = CHR ''_'' then CHR ''-'' else c) s"
proof (induction s)
  case Nil
  show ?case by (simp add: str_replace.simps)
next
  case (Cons x xs)
  show ?case
    by (subst str_replace.simps) (simp add: Cons.IH)
qed

lemma append_disabled_tasks_eq:
  "append_disabled_tasks h items command =
     command @ map (\<lambda>(name, a). task_flag (task_at h a))
                 (filter (\<lambda>(name, a). \<not> task_enabled (task_at h a)) items)"
  by (induction items arbitrary: command) auto

lemma append_enabled_options_eq:
  "append_enabled_options h items command =
     command @ map (\<lambda>(name, a). option_flag (option_at h a))
                 (filter (\<lambda>(name, a). option_enabled (option_at h a)) items)"
  by (induction items arbitrary: command) auto

lemma build_command_eq:
  "build_command h c use_pkexec =
     (if use_pkexec then [''pkexec''] else []) @ [script_path c]
       @ disabled_task_flags h c @ enabled_option_flags h c"
  by (simp add: build_command_def disabled_task_flags_def enabled_option_flags_def
        append_disabled_tasks_eq append_enabled_options_eq)

subsection \<open>Allocation\<close>

lemma next_addr_new_task: "next_addr (snd (new_task t h)) = Suc (next_addr h)"
  by (simp add: new_task_def)

lemma task_at_new_task: "task_at (snd (new_task t h)) a = (if a = next_addr h then t else task_at h a)"
  by (simp add: new_task_def)

lemma option_at_new_task: "option_at (snd (new_task t h)) = option_at h"
  by (simp add: new_task_def)

lemma next_addr_new_option: "next_addr (snd (new_option opt h)) = Suc (next_addr h)"
  by (simp add: new_option_def)

lemma option_at_new_option:
  "option_at (snd (new_option opt h)) a = (if a = next_addr h then opt else option_at h a)"
  by (simp add: new_option_def)

lemma task_at_new_option: "task_at (snd (new_option opt h)) = task_at h"
  by (simp add: new_option_def)

lemma copy_tasks_Cons:
  "copy_tasks (x # items) h =
     ((fst x, next_addr h) # fst (copy_tasks items (snd (new_task (copy_of_task (task_at h (snd x))) h))),
      snd (copy_tasks items (snd (new_task (copy_of_task (task_at h (snd x))) h))))"
  by (cases x) (simp add: new_task_def Let_def split_beta copy_of_task_def)

lemma copy_options_Cons:
  "copy_options (x # items) h =
     ((fst x, next_addr h)
        # fst (copy_options items (snd (new_option (copy_of_option (option_at h (snd x))) h))),
      snd (copy_options items (snd (new_option (copy_of_option (option_at h (snd x))) h))))"
  by (cases x) (simp add: new_option_def Let_def split_beta copy_of_option_def)

lemmas alloc_simps =
  copy_tasks_Cons next_addr_new_task task_at_new_task option_at_new_task
  copy_options_Cons next_addr_new_option option_at_new_option task_at_new_option

lemma copy_tasks_keys: "map fst (fst (copy_tasks items h)) = map fst items"
  by (induction items arbitrary: h) (simp_all add: alloc_simps)

lemma copy_tasks_next: "next_addr (snd (copy_tasks items h)) = next_addr h + length items"
  by (induction items arbitrary: h) (simp_all add: alloc_simps)

lemma copy_tasks_addrs:
  "map snd (fst (copy_tasks items h)) = [next_addr h ..< next_addr h + length items]"
  by (induction items arbitrary: h) (simp_all add: alloc_simps upt_rec)

lemma copy_tasks_old:
  "a < next_addr h \<Longrightarrow> task_at (snd (copy_tasks items h)) a = task_at h a"
  by (induction items arbitrary: h) (simp_all add: alloc_simps)

lemma copy_tasks_option_at: "option_at (snd (copy_tasks items h)) = option_at h"
  by (induction items arbitrary: h) (simp_all add: alloc_simps)

lemma copy_options_keys: "map fst (fst (copy_options items h)) = map fst items"
  by (induction items arbitrary: h) (simp_all add: alloc_simps)

lemma copy_options_next: "next_addr (snd (copy_options items h)) = next_addr h + length items"
  by (induction items arbitrary: h) (simp_all add: alloc_simps)

lemma copy_options_addrs:
  "map snd (fst (copy_options items h)) = [next_addr h ..< next_addr h + length items]"
  by (induction items arbitrary: h) (simp_all add: alloc_simps upt_rec)

lemma copy_options_old:
  "a < next_addr h \<Longrightarrow> option_at (snd (copy_options items h)) a = option_at h a"
  by (induction items arbitrary: h) (simp_all add: alloc_simps)

lemma copy_options_task_at: "task_at (snd (copy_options items h)) = task_at h"
  by (induction items arbitrary: h) (simp_all add: alloc_simps)

lemma task_flag_copy: "task_flag (copy_of_task t) = ''--no-'' @ hyphenate (task_name (copy_of_task t))"
  by (simp add: copy_of_task_def FedorableTask_init_def str_replace_underscores hyphenate_def)

lemma option_flag_copy:
  "option_flag (copy_of_option opt) = ''--'' @ hyphenate (option_name (copy_of_option opt))"
  by (simp add: copy_of_option_def FedorableOption_init_def str_replace_underscores hyphenate_def)

lemma copy_tasks_flags:
  "(key, a) \<in> set (fst (copy_tasks items h)) \<Longrightarrow>
     task_flag (task_at (snd (copy_tasks items h)) a) =
       ''--no-'' @ hyphenate (task_name (task_at (snd (copy_tasks items h)) a))"
proof (induction items arbitrary: h)
  case Nil
  then show ?case by simp
next
  case (Cons x items)
  then show ?case
    using task_flag_copy [of "task_at h (snd x)"]
    by (auto simp: alloc_simps copy_tasks_old)
qed

lemma copy_options_flags:
  "(key, a) \<in> set (fst (copy_options items h)) \<Longrightarrow>
     option_flag (option_at (snd (copy_options items h)) a) =
       ''--'' @ hyphenate (option_name (option_at (snd (copy_options items h)) a))"
proof (induction items arbitrary: h)
  case Nil
  then show ?case by simp
next
  case (Cons x items)
  then show ?case
    using option_flag_copy [of "option_at h (snd x)"]
    by (auto simp: alloc_simps copy_options_old)
qed

subsection \<open>Assignments to the enabled state\<close>

lemma set_task_enabled_task_at:
  "task_at (snd (set_task_enabled c name v h)) a =
     (if map_of (tasks c) name = Some a then (task_at h a)\<lparr> task_enabled := v \<rparr> else task_at h a)"
  by (auto simp: set_task_enabled_def split: option.splits)

lemma set_task_enabled_option_at: "option_at (snd (set_task_enabled c name v h)) = option_at h"
  by (simp add: set_task_enabled_def split: option.splits)

lemma set_task_enabled_next: "next_addr (snd (set_task_enabled c name v h)) = next_addr h"
  by (simp add: set_task_enabled_def split: option.splits)

lemma set_option_enabled_option_at:
  "option_at (snd (set_option_enabled c name v h)) a =
     (if map_of (options c) name = Some a then (option_at h a)\<lparr> option_enabled := v \<rparr>
      else option_at h a)"
  by (auto simp: set_option_enabled_def split: option.splits)

lemma set_option_enabled_task_at: "task_at (snd (set_option_enabled c name v h)) = task_at h"
  by (simp add: set_option_enabled_def split: option.splits)

lemma set_option_enabled_next: "next_addr (snd (set_option_enabled c name v h)) = next_addr h"
  by (simp add: set_option_enabled_def split: option.splits)

lemma for_each_preserves:
  assumes "\<And>x h. P h \<Longrightarrow> P (snd (body x h))" and "P h"
  shows "P (snd (for_each body xs h))"
  using assms(2)
proof (induction xs arbitrary: h)
  case Nil
  then show ?case by simp
next
  case (Cons x xs)
  have "P (snd (body x h))" using Cons.prems by (rule assms(1))
  then show ?case
    using Cons.IH [of "snd (body x h)"]
    by (cases "body x h") (auto split: option.splits)
qed

lemma same_names_flags_refl: "same_names_flags h h"
  by (simp add: same_names_flags_def)

lemma set_task_enabled_same: "same_names_flags h0 h \<Longrightarrow> same_names_flags h0 (snd (set_task_enabled c name v h))"
  by (simp add: same_names_flags_def set_task_enabled_task_at set_task_enabled_option_at)

lemma set_option_enabled_same: "same_names_flags h0 h \<Longrightarrow> same_names_flags h0 (snd (set_option_enabled c name v h))"
  by (simp add: same_names_flags_def set_option_enabled_task_at set_option_enabled_option_at)

lemma guarded_set_task_same: "same_names_flags h0 h \<Longrightarrow> same_names_flags h0 (snd (guarded_set_task c x h))"
  by (cases x) (simp add: guarded_set_task_def set_task_enabled_same)

lemma guarded_set_option_same: "same_names_flags h0 h \<Longrightarrow> same_names_flags h0 (snd (guarded_set_option c x h))"
  by (cases x) (simp add: guarded_set_option_def set_option_enabled_same)

lemma MainWindow_build_command_same:
  "same_names_flags h (snd (MainWindow_build_command c cbs sws h))"
proof -
  let ?h1 = "snd (for_each (guarded_set_task c) cbs h)"
  let ?h2 = "snd (for_each (guarded_set_option c) sws ?h1)"
  have 1: "same_names_flags h ?h1"
    by (rule for_each_preserves) (simp_all add: guarded_set_task_same same_names_flags_refl)
  have 2: "same_names_flags h ?h2"
    by (rule for_each_preserves) (simp_all add: guarded_set_option_same 1)
  show ?thesis
    using 1 2 by (auto simp: MainWindow_build_command_def split: prod.splits option.splits)
qed

subsection \<open>Instances\<close>

lemma init_fst:
  "fst (FedorableCore_init m path h) =
     \<lparr> script_path = (case path of None \<Rightarrow> DEFAULT_SCRIPT_PATH m
                        | Some p \<Rightarrow> if p = [] then DEFAULT_SCRIPT_PATH m else p),
       tasks = fst (copy_tasks (TASKS m) h),
       options = fst (copy_options (OPTIONS m) (snd (copy_tasks (TASKS m) h))) \<rparr>"
  by (simp add: FedorableCore_init_def Let_def split_beta)

lemma init_snd:
  "snd (FedorableCore_init m path h) = snd (copy_options (OPTIONS m) (snd (copy_tasks (TASKS m) h)))"
  by (simp add: FedorableCore_init_def Let_def split_beta)

lemma init_task_addrs:
  "map snd (tasks (fst (FedorableCore_init m path h))) =
     [next_addr h ..< next_addr h + length (TASKS m)]"
  by (simp add: init_fst copy_tasks_addrs)

lemma init_option_addrs:
  "map snd (options (fst (FedorableCore_init m path h))) =
     [next_addr h + length (TASKS m) ..< next_addr h + length (TASKS m) + length (OPTIONS m)]"
  by (simp add: init_fst copy_options_addrs copy_tasks_next)

lemma init_next:
  "next_addr (snd (FedorableCore_init m path h)) = next_addr h + length (TASKS m) + length (OPTIONS m)"
  by (simp add: init_snd copy_options_next copy_tasks_next)

lemma init_derived_flags:
  "derived_flags (snd (FedorableCore_init m path h)) (fst (FedorableCore_init m path h))"
proof -
  have "task_flag (task_at (snd (copy_tasks (TASKS m) h)) a) =
          ''--no-'' @ hyphenate (task_name (task_at (snd (copy_tasks (TASKS m) h)) a))"
    if "(key, a) \<in> set (fst (copy_tasks (TASKS m) h))" for key a
    using that by (rule copy_tasks_flags)
  then show ?thesis
    by (auto simp: derived_flags_def init_fst init_snd copy_options_task_at
          dest: copy_options_flags)
qed

lemma derived_flags_same:
  "same_names_flags h h' \<Longrightarrow> derived_flags h c \<Longrightarrow> derived_flags h' c"
  by (simp add: same_names_flags_def derived_flags_def)

lemma task_states_cong:
  "(\<And>key a. (key, a) \<in> set items \<Longrightarrow> task_at h' a = task_at h a) \<Longrightarrow>
     task_states h' items = task_states h items"
  by (auto simp: task_states_def)

lemma option_states_cong:
  "(\<And>key a. (key, a) \<in> set items \<Longrightarrow> option_at h' a = option_at h a) \<Longrightarrow>
     option_states h' items = option_states h items"
  by (auto simp: option_states_def)

lemma in_set_addr: "(key, a) \<in> set items \<Longrightarrow> a \<in> set (map snd items)"
  by force

lemma map_of_addr: "map_of items key = Some a \<Longrightarrow> a \<in> set (map snd items)"
  by (drule map_of_SomeD) (rule in_set_addr)

lemma set_task_enabled_same_states:
  assumes "set (map snd (tasks c)) \<inter> set (map snd ts) = {}"
  shows "same_states h (snd (set_task_enabled c name v h)) ts os"
proof -
  have "task_at (snd (set_task_enabled c name v h)) a = task_at h a" if "(key, a) \<in> set ts" for key a
  proof -
    have "a \<in> set (map snd ts)" using that by (rule in_set_addr)
    then have "map_of (tasks c) name \<noteq> Some a"
      using assms map_of_addr [of "tasks c" name a] by blast
    then show ?thesis by (simp add: set_task_enabled_task_at)
  qed
  then have "task_states (snd (set_task_enabled c name v h)) ts = task_states h ts"
    by (rule task_states_cong)
  moreover have "option_states (snd (set_task_enabled c name v h)) os = option_states h os"
    by (rule option_states_cong) (simp add: set_task_enabled_option_at)
  ultimately show ?thesis
    by (simp add: same_states_def)
qed

lemma set_option_enabled_same_states:
  assumes "set (map snd (options c)) \<inter> set (map snd os) = {}"
  shows "same_states h (snd (set_option_enabled c name v h)) ts os"
proof -
  have "option_at (snd (set_option_enabled c name v h)) a = option_at h a" if "(key, a) \<in> set os" for key a
  proof -
    have "a \<in> set (map snd os)" using that by (rule in_set_addr)
    then have "map_of (options c) name \<noteq> Some a"
      using assms map_of_addr [of "options c" name a] by blast
    then show ?thesis by (simp add: set_option_enabled_option_at)
  qed
  then have "option_states (snd (set_option_enabled c name v h)) os = option_states h os"
    by (rule option_states_cong)
  moreover have "task_states (snd (set_option_enabled c name v h)) ts = task_states h ts"
    by (rule task_states_cong) (simp add: set_option_enabled_task_at)
  ultimately show ?thesis
    by (simp add: same_states_def)
qed

lemma module_allocated_tasks: "module_allocated m h \<Longrightarrow> a \<in> set (map snd (TASKS m)) \<Longrightarrow> a < next_addr h"
  unfolding module_allocated_def by (auto simp: split_beta)

lemma module_allocated_options: "module_allocated m h \<Longrightarrow> a \<in> set (map snd (OPTIONS m)) \<Longrightarrow> a < next_addr h"
  unfolding module_allocated_def by (auto simp: split_beta)

lemma disjoint_intervals: "b \<le> c \<Longrightarrow> {a..<b} \<inter> {c..<d} = ({} :: nat set)"
  by auto

lemma disjoint_below: "S \<subseteq> {..<n} \<Longrightarrow> n \<le> a \<Longrightarrow> {a..<b} \<inter> S = ({} :: nat set)"
  by auto

text \<open>
  C8. Two instances made one after the other from the same module, whose registry holds
  references to objects constructed before: whatever the store is later, an assignment to
  the enabled state of a task or an option of one instance leaves every object of the
  other instance and every object of the class-level registries as it was.
\<close>

theorem clone_independence:
  assumes "module_allocated m h"
    and "FedorableCore_init m path1 h = (c1, h1)"
    and "FedorableCore_init m path2 h1 = (c2, h2)"
  shows "same_states hx (snd (set_task_enabled c1 name v hx)) (tasks c2) (options c2)
       \<and> same_states hx (snd (set_task_enabled c1 name v hx)) (TASKS m) (OPTIONS m)
       \<and> same_states hx (snd (set_option_enabled c1 name v hx)) (tasks c2) (options c2)
       \<and> same_states hx (snd (set_option_enabled c1 name v hx)) (TASKS m) (OPTIONS m)
       \<and> same_states hx (snd (set_task_enabled c2 name v hx)) (tasks c1) (options c1)
       \<and> same_states hx (snd (set_task_enabled c2 name v hx)) (TASKS m) (OPTIONS m)
       \<and> same_states hx (snd (set_option_enabled c2 name v hx)) (tasks c1) (options c1)
       \<and> same_states hx (snd (set_option_enabled c2 name v hx)) (TASKS m) (OPTIONS m)"
proof -
  have c1: "c1 = fst (FedorableCore_init m path1 h)" and h1: "h1 = snd (FedorableCore_init m path1 h)"
    using assms(2) by simp_all
  have c2: "c2 = fst (FedorableCore_init m path2 h1)"
    using assms(3) by simp
  have t1: "set (map snd (tasks c1)) = {next_addr h ..< next_addr h + length (TASKS m)}"
    by (simp add: c1 init_task_addrs)
  have o1: "set (map snd (options c1)) =
      {next_addr h + length (TASKS m) ..< next_addr h + length (TASKS m) + length (OPTIONS m)}"
    by (simp add: c1 init_option_addrs)
  have n1: "next_addr h1 = next_addr h + length (TASKS m) + length (OPTIONS m)"
    by (simp add: h1 init_next)
  have t2: "set (map snd (tasks c2)) = {next_addr h1 ..< next_addr h1 + length (TASKS m)}"
    by (simp add: c2 init_task_addrs)
  have o2: "set (map snd (options c2)) =
      {next_addr h1 + length (TASKS m) ..< next_addr h1 + length (TASKS m) + length (OPTIONS m)}"
    by (simp add: c2 init_option_addrs)
  have tm: "set (map snd (TASKS m)) \<subseteq> {..< next_addr h}"
    using module_allocated_tasks [OF assms(1)] by blast
  have om: "set (map snd (OPTIONS m)) \<subseteq> {..< next_addr h}"
    using module_allocated_options [OF assms(1)] by blast
  have d12: "set (map snd (tasks c1)) \<inter> set (map snd (tasks c2)) = {}"
    unfolding t1 t2 n1 by (rule disjoint_intervals) simp
  have d1m: "set (map snd (tasks c1)) \<inter> set (map snd (TASKS m)) = {}"
    unfolding t1 by (rule disjoint_below [OF tm]) simp
  have d2m: "set (map snd (tasks c2)) \<inter> set (map snd (TASKS m)) = {}"
    unfolding t2 n1 by (rule disjoint_below [OF tm]) simp
  have e12: "set (map snd (options c1)) \<inter> set (map snd (options c2)) = {}"
    unfolding o1 o2 n1 by (rule disjoint_intervals) simp
  have e1m: "set (map snd (options c1)) \<inter> set (map snd (OPTIONS m)) = {}"
    unfolding o1 by (rule disjoint_below [OF om]) simp
  have e2m: "set (map snd (options c2)) \<inter> set (map snd (OPTIONS m)) = {}"
    unfolding o2 n1 by (rule disjoint_below [OF om]) simp
  have d21: "set (map snd (tasks c2)) \<inter> set (map snd (tasks c1)) = {}"
    using d12 by (simp add: Int_commute)
  have e21: "set (map snd (options c2)) \<inter> set (map snd (options c1)) = {}"
    using e12 by (simp add: Int_commute)
  note ts = set_task_enabled_same_states and os = set_option_enabled_same_states
  show ?thesis
    by (intro conjI ts [OF d12] ts [OF d1m] os [OF e12] os [OF e1m]
          ts [OF d21] ts [OF d2m] os [OF e21] os [OF e2m])
qed

subsection \<open>Loading the module\<close>

lemma new_tasks_Cons:
  "new_tasks (x # items) h =
     ((fst x, next_addr h) # fst (new_tasks items (snd (new_task (snd x) h))),
      snd (new_tasks items (snd (new_task (snd x) h))))"
  by (cases x) (simp add: new_task_def Let_def split_beta)

lemma new_options_Cons:
  "new_options (x # items) h =
     ((fst x, next_addr h) # fst (new_options items (snd (new_option (snd x) h))),
      snd (new_options items (snd (new_option (snd x) h))))"
  by (cases x) (simp add: new_option_def Let_def split_beta)

lemmas new_simps =
  new_tasks_Cons next_addr_new_task task_at_new_task option_at_new_task
  new_options_Cons next_addr_new_option option_at_new_option task_at_new_option

lemma new_tasks_next: "next_addr (snd (new_tasks items h)) = next_addr h + length items"
  by (induction items arbitrary: h) (simp_all add: new_simps)

lemma new_tasks_addrs:
  "map snd (fst (new_tasks items h)) = [next_addr h ..< next_addr h + length items]"
  by (induction items arbitrary: h) (simp_all add: new_simps upt_rec)

lemma new_tasks_old: "a < next_addr h \<Longrightarrow> task_at (snd (new_tasks items h)) a = task_at h a"
  by (induction items arbitrary: h) (simp_all add: new_simps)

lemma new_tasks_option_at: "option_at (snd (new_tasks items h)) = option_at h"
  by (induction items arbitrary: h) (simp_all add: new_simps)

lemma new_tasks_states: "task_states (snd (new_tasks items h)) (fst (new_tasks items h)) = items"
  by (induction items arbitrary: h) (simp_all add: new_simps task_states_def new_tasks_old)

lemma new_options_next: "next_addr (snd (new_options items h)) = next_addr h + length items"
  by (induction items arbitrary: h) (simp_all add: new_simps)

lemma new_options_addrs:
  "map snd (fst (new_options items h)) = [next_addr h ..< next_addr h + length items]"
  by (induction items arbitrary: h) (simp_all add: new_simps upt_rec)

lemma new_options_old: "a < next_addr h \<Longrightarrow> option_at (snd (new_options items h)) a = option_at h a"
  by (induction items arbitrary: h) (simp_all add: new_simps)

lemma new_options_task_at: "task_at (snd (new_options items h)) = task_at h"
  by (induction items arbitrary: h) (simp_all add: new_simps)

lemma new_options_states:
  "option_states (snd (new_options items h)) (fst (new_options items h)) = items"
  by (induction items arbitrary: h) (simp_all add: new_simps option_states_def new_options_old)

lemma load_fst:
  "fst (load_core_module default_path h) =
     \<lparr> DEFAULT_SCRIPT_PATH = default_path,
       TASKS = fst (new_tasks TASKS_literal h),
       OPTIONS = fst (new_options OPTIONS_literal (snd (new_tasks TASKS_literal h))) \<rparr>"
  by (simp add: load_core_module_def Let_def split_beta)

lemma load_snd:
  "snd (load_core_module default_path h) =
     snd (new_options OPTIONS_literal (snd (new_tasks TASKS_literal h)))"
  by (simp add: load_core_module_def Let_def split_beta)

lemma load_task_states:
  "task_states (snd (load_core_module default_path h)) (TASKS (fst (load_core_module default_path h)))
     = TASKS_literal"
  using new_tasks_states [of TASKS_literal h]
  by (simp add: load_fst load_snd task_states_def new_options_task_at)

lemma load_option_states:
  "option_states (snd (load_core_module default_path h))
     (OPTIONS (fst (load_core_module default_path h))) = OPTIONS_literal"
  by (simp add: load_fst load_snd new_options_states)

lemma in_upt_addr: "(key, a) \<in> set items \<Longrightarrow> map snd items = [i ..< j] \<Longrightarrow> a < j"
proof -
  assume mem: "(key, a) \<in> set items" and eq: "map snd items = [i ..< j]"
  have "a \<in> set (map snd items)" using mem by (rule in_set_addr)
  then show "a < j" unfolding eq by simp
qed

lemma load_allocated:
  "module_allocated (fst (load_core_module default_path h)) (snd (load_core_module default_path h))"
proof -
  let ?h1 = "snd (new_tasks TASKS_literal h)"
  have 1: "a < next_addr h + length TASKS_literal"
    if "(key, a) \<in> set (fst (new_tasks TASKS_literal h))" for key a
    using that new_tasks_addrs by (rule in_upt_addr)
  have 2: "a < next_addr ?h1 + length OPTIONS_literal"
    if "(key, a) \<in> set (fst (new_options OPTIONS_literal ?h1))" for key a
    using that new_options_addrs by (rule in_upt_addr)
  show ?thesis
    unfolding module_allocated_def load_fst load_snd
    using 1 2 by (fastforce simp: new_options_next new_tasks_next)
qed

subsection \<open>What an instance shows\<close>

lemma copy_tasks_states:
  "(\<And>key a. (key, a) \<in> set items \<Longrightarrow> a < next_addr h) \<Longrightarrow>
     task_states (snd (copy_tasks items h)) (fst (copy_tasks items h)) =
       map (\<lambda>(key, t). (key, copy_of_task t)) (task_states h items)"
proof (induction items arbitrary: h)
  case Nil
  show ?case by (simp add: task_states_def)
next
  case (Cons x items)
  let ?h' = "snd (new_task (copy_of_task (task_at h (snd x))) h)"
  have "task_states (snd (copy_tasks items ?h')) (fst (copy_tasks items ?h')) =
          map (\<lambda>(key, t). (key, copy_of_task t)) (task_states ?h' items)"
    using Cons.prems by (intro Cons.IH) (auto simp: alloc_simps less_Suc_eq)
  moreover have "task_states ?h' items = task_states h items"
    using Cons.prems by (intro task_states_cong) (auto simp: alloc_simps)
  ultimately show ?case
    by (simp add: alloc_simps task_states_def copy_tasks_old split_beta)
qed

lemma copy_options_states:
  "(\<And>key a. (key, a) \<in> set items \<Longrightarrow> a < next_addr h) \<Longrightarrow>
     option_states (snd (copy_options items h)) (fst (copy_options items h)) =
       map (\<lambda>(key, opt). (key, copy_of_option opt)) (option_states h items)"
proof (induction items arbitrary: h)
  case Nil
  show ?case by (simp add: option_states_def)
next
  case (Cons x items)
  let ?h' = "snd (new_option (copy_of_option (option_at h (snd x))) h)"
  have "option_states (snd (copy_options items ?h')) (fst (copy_options items ?h')) =
          map (\<lambda>(key, opt). (key, copy_of_option opt)) (option_states ?h' items)"
    using Cons.prems by (intro Cons.IH) (auto simp: alloc_simps less_Suc_eq)
  moreover have "option_states ?h' items = option_states h items"
    using Cons.prems by (intro option_states_cong) (auto simp: alloc_simps)
  ultimately show ?case
    by (simp add: alloc_simps option_states_def copy_options_old split_beta)
qed

lemma init_task_states:
  assumes "module_allocated m h"
  shows "task_states (snd (FedorableCore_init m path h)) (tasks (fst (FedorableCore_init m path h)))
           = map (\<lambda>(key, t). (key, copy_of_task t)) (task_states h (TASKS m))"
proof -
  have "a < next_addr h" if "(key, a) \<in> set (TASKS m)" for key a
    using that assms by (auto simp: module_allocated_def)
  then have "task_states (snd (copy_tasks (TASKS m) h)) (fst (copy_tasks (TASKS m) h)) =
          map (\<lambda>(key, t). (key, copy_of_task t)) (task_states h (TASKS m))"
    by (rule copy_tasks_states)
  then show ?thesis
    by (simp add: init_fst init_snd task_states_def copy_options_task_at)
qed

lemma init_option_states:
  assumes "module_allocated m h"
  shows "option_states (snd (FedorableCore_init m path h))
           (options (fst (FedorableCore_init m path h)))
           = map (\<lambda>(key, opt). (key, copy_of_option opt)) (option_states h (OPTIONS m))"
proof -
  let ?h1 = "snd (copy_tasks (TASKS m) h)"
  have lt: "a < next_addr h" if "(key, a) \<in> set (OPTIONS m)" for key a
    using that assms by (auto simp: module_allocated_def)
  then have "a < next_addr ?h1" if "(key, a) \<in> set (OPTIONS m)" for key a
    using that by (fastforce simp: copy_tasks_next)
  then have "option_states (snd (copy_options (OPTIONS m) ?h1)) (fst (copy_options (OPTIONS m) ?h1)) =
          map (\<lambda>(key, opt). (key, copy_of_option opt)) (option_states ?h1 (OPTIONS m))"
    by (rule copy_options_states)
  moreover have "option_states ?h1 (OPTIONS m) = option_states h (OPTIONS m)"
    by (simp add: option_states_def copy_tasks_option_at)
  ultimately show ?thesis
    by (simp add: init_fst init_snd)
qed

subsection \<open>The example run\<close>

lemma new_tasks_keys: "map fst (fst (new_tasks items h)) = map fst items"
  by (induction items arbitrary: h) (simp_all add: new_simps)

lemma new_options_keys: "map fst (fst (new_options items h)) = map fst items"
  by (induction items arbitrary: h) (simp_all add: new_simps)

lemma TASKS_literal_keys:
  "map fst TASKS_literal =
     [''update'', ''autoremove'', ''clean_dnf'', ''clean_kernels'', ''clean_journal'',
      ''clean_temp'', ''update_grub'', ''clean_flatpak'', ''optimize_rpmdb'',
      ''reset_failed_units'', ''trim'']"
  by (simp add: TASKS_literal_def)

lemma OPTIONS_literal_keys:
  "map fst OPTIONS_literal = [''yes'', ''dry_run'', ''check_only'', ''quiet'']"
  by (simp add: OPTIONS_literal_def)

lemma TASKS_literal_length: "length TASKS_literal = 11"
  by (simp add: TASKS_literal_def)

lemma OPTIONS_literal_length: "length OPTIONS_literal = 4"
  by (simp add: OPTIONS_literal_def)

lemma items_zip: "map fst items = keys \<Longrightarrow> map snd items = addrs \<Longrightarrow> items = zip keys addrs"
  by (auto simp: zip_map_fst_snd)

lemma example_loaded_next: "next_addr (snd example_loaded) = 15"
  by (simp add: example_loaded_def load_snd new_options_next new_tasks_next TASKS_literal_length
        OPTIONS_literal_length empty_heap_def)

lemma upt_examples:
  "[0 ..< 11] = [0, 1, 2, 3, 4, 5, 6, 7, 8, 9, 10 :: nat]"
  "[11 ..< 15] = [11, 12, 13, 14 :: nat]"
  "[15 ..< 26] = [15, 16, 17, 18, 19, 20, 21, 22, 23, 24, 25 :: nat]"
  "[26 ..< 30] = [26, 27, 28, 29 :: nat]"
  by code_simp+

lemma example_loaded_TASKS:
  "TASKS (fst example_loaded) =
     [(''update'', 0), (''autoremove'', 1), (''clean_dnf'', 2), (''clean_kernels'', 3),
      (''clean_journal'', 4), (''clean_temp'', 5), (''update_grub'', 6),
      (''clean_flatpak'', 7), (''optimize_rpmdb'', 8), (''reset_failed_units'', 9),
      (''trim'', 10)]"
proof -
  have "TASKS (fst example_loaded) = zip (map fst TASKS_literal) [0 ..< 11]"
    by (rule items_zip)
       (simp_all add: example_loaded_def load_fst new_tasks_keys new_tasks_addrs
          TASKS_literal_length empty_heap_def)
  then show ?thesis
    unfolding TASKS_literal_keys upt_examples by simp
qed

lemma example_loaded_OPTIONS:
  "OPTIONS (fst example_loaded) = [(''yes'', 11), (''dry_run'', 12), (''check_only'', 13), (''quiet'', 14)]"
proof -
  have "OPTIONS (fst example_loaded) = zip (map fst OPTIONS_literal) [11 ..< 15]"
    by (rule items_zip)
       (simp_all add: example_loaded_def load_fst new_options_keys new_options_addrs
          new_tasks_next TASKS_literal_length OPTIONS_literal_length empty_heap_def)
  then show ?thesis
    unfolding OPTIONS_literal_keys upt_examples by simp
qed

lemma example_instance_tasks:
  "tasks (fst (example_instance path)) =
     [(''update'', 15), (''autoremove'', 16), (''clean_dnf'', 17), (''clean_kernels'', 18),
      (''clean_journal'', 19), (''clean_temp'', 20), (''update_grub'', 21),
      (''clean_flatpak'', 22), (''optimize_rpmdb'', 23), (''reset_failed_units'', 24),
      (''trim'', 25)]"
proof -
  have len: "length (TASKS (fst example_loaded)) = 11"
    by (simp add: example_loaded_TASKS)
  have keys: "map fst (tasks (fst (example_instance path))) = map fst (TASKS (fst example_loaded))"
    by (simp add: example_instance_def init_fst copy_tasks_keys)
  have addrs: "map snd (tasks (fst (example_instance path))) = [15 ..< 26]"
    by (simp add: example_instance_def init_task_addrs example_loaded_next len)
  have "tasks (fst (example_instance path)) = zip (map fst (TASKS (fst example_loaded))) [15 ..< 26]"
    using keys addrs by (rule items_zip)
  then show ?thesis
    unfolding example_loaded_TASKS upt_examples by simp
qed

lemma example_instance_options:
  "options (fst (example_instance path)) =
     [(''yes'', 26), (''dry_run'', 27), (''check_only'', 28), (''quiet'', 29)]"
proof -
  have len: "length (TASKS (fst example_loaded)) = 11" "length (OPTIONS (fst example_loaded)) = 4"
    by (simp_all add: example_loaded_TASKS example_loaded_OPTIONS)
  have keys: "map fst (options (fst (example_instance path))) = map fst (OPTIONS (fst example_loaded))"
    by (simp add: example_instance_def init_fst copy_options_keys)
  have addrs: "map snd (options (fst (example_instance path))) = [26 ..< 30]"
    by (simp add: example_instance_def init_option_addrs example_loaded_next len)
  have "options (fst (example_instance path)) = zip (map fst (OPTIONS (fst example_loaded))) [26 ..< 30]"
    using keys addrs by (rule items_zip)
  then show ?thesis
    unfolding example_loaded_OPTIONS upt_examples by simp
qed

lemma example_instance_path:
  "script_path (fst (example_instance path)) =
     (case path of None \<Rightarrow> ''/usr/share/fedorable/fedorable.sh''
      | Some p \<Rightarrow> if p = [] then ''/usr/share/fedorable/fedorable.sh'' else p)"
  by (simp add: example_instance_def init_fst example_loaded_def load_fst split: option.splits)

lemma example_loaded_allocated: "module_allocated (fst example_loaded) (snd example_loaded)"
  unfolding example_loaded_def by (rule load_allocated)

lemma example_instance_task_states:
  "task_states (snd (example_instance path)) (tasks (fst (example_instance path))) = TASKS_literal"
proof -
  have "task_states (snd (example_instance path)) (tasks (fst (example_instance path))) =
          map (\<lambda>(key, t). (key, copy_of_task t)) TASKS_literal"
    unfolding example_instance_def
    using init_task_states [OF example_loaded_allocated] load_task_states
    by (simp add: example_loaded_def)
  also have "\<dots> = TASKS_literal"
    by (simp add: TASKS_literal_def copy_of_task_def FedorableTask_init_def)
  finally show ?thesis .
qed

lemma example_instance_option_states:
  "option_states (snd (example_instance path)) (options (fst (example_instance path))) = OPTIONS_literal"
proof -
  have "option_states (snd (example_instance path)) (options (fst (example_instance path))) =
          map (\<lambda>(key, opt). (key, copy_of_option opt)) OPTIONS_literal"
    unfolding example_instance_def
    using init_option_states [OF example_loaded_allocated] load_option_states
    by (simp add: example_loaded_def)
  also have "\<dots> = OPTIONS_literal"
    by (simp add: OPTIONS_literal_def copy_of_option_def FedorableOption_init_def)
  finally show ?thesis .
qed

subsection \<open>Loops that never raise\<close>

lemma for_each_no_error:
  "(\<And>x h. x \<in> set xs \<Longrightarrow> fst (body x h) = None) \<Longrightarrow> fst (for_each body xs h) = None"
proof (induction xs arbitrary: h)
  case Nil
  show ?case by simp
next
  case (Cons x xs)
  have "fst (body x h) = None" by (rule Cons.prems) simp
  moreover have "fst (for_each body xs (snd (body x h))) = None"
    by (rule Cons.IH) (simp add: Cons.prems)
  ultimately show ?case
    by (cases "body x h") (auto split: option.splits)
qed

lemma map_of_key: "key \<in> set (map fst items) \<Longrightarrow> \<exists>a. map_of items key = Some a"
  by (cases "map_of items key") (simp_all add: map_of_eq_None_iff)

lemma set_task_enabled_known:
  "name \<in> set (map fst (tasks c)) \<Longrightarrow> fst (set_task_enabled c name v h) = None"
  by (drule map_of_key) (auto simp: set_task_enabled_def)

lemma set_option_enabled_known:
  "name \<in> set (map fst (options c)) \<Longrightarrow> fst (set_option_enabled c name v h) = None"
  by (drule map_of_key) (auto simp: set_option_enabled_def)

lemma guarded_set_task_no_error: "fst (guarded_set_task c x h) = None"
  by (cases x) (simp add: guarded_set_task_def set_task_enabled_known)

lemma guarded_set_option_no_error: "fst (guarded_set_option c x h) = None"
  by (cases x) (simp add: guarded_set_option_def set_option_enabled_known)

lemma apply_task_arg_no_error:
  "name \<in> set (map fst (tasks c)) \<Longrightarrow> fst (apply_task_arg args c name h) = None"
  by (simp add: apply_task_arg_def set_task_enabled_known split: option.splits)

lemma apply_option_arg_no_error:
  "name \<in> set (map fst (options c)) \<Longrightarrow> fst (apply_option_arg args c name h) = None"
  by (simp add: apply_option_arg_def set_option_enabled_known split: option.splits bool.splits)

lemma apply_preset_no_error: "fst (apply_preset args c h) = None"
  by (auto simp: apply_preset_def intro!: for_each_no_error set_task_enabled_known)

lemma case_no_error:
  "fst r = None \<Longrightarrow>
     (case r of (Some e, h') \<Rightarrow> g e h' | (None, h') \<Rightarrow> f h') = f (snd r)"
  by (cases r) auto

lemma MainWindow_build_command_eq:
  "MainWindow_build_command c cbs sws h =
     (Inr (build_command (snd (for_each (guarded_set_option c) sws
                                (snd (for_each (guarded_set_task c) cbs h)))) c True),
      snd (for_each (guarded_set_option c) sws (snd (for_each (guarded_set_task c) cbs h))))"
proof -
  have 1: "fst (for_each (guarded_set_task c) cbs h) = None"
    by (rule for_each_no_error) (rule guarded_set_task_no_error)
  have 2: "fst (for_each (guarded_set_option c) sws h') = None" for h'
    by (rule for_each_no_error) (rule guarded_set_option_no_error)
  show ?thesis
    by (simp add: MainWindow_build_command_def case_no_error 1 2)
qed

lemma setup_fedorable_core_eq:
  "setup_fedorable_core m args h =
     (let init = FedorableCore_init m (Some (arg_script_path args)) h;
          c = fst init;
          h1 = snd (apply_preset args c (snd init));
          h2 = snd (for_each (apply_task_arg args c) (map fst (tasks c)) h1);
          h3 = snd (for_each (apply_option_arg args c) (map fst (options c)) h2)
      in (Inr c, h3))"
proof -
  obtain c h0 where init: "FedorableCore_init m (Some (arg_script_path args)) h = (c, h0)"
    by (cases "FedorableCore_init m (Some (arg_script_path args)) h")
  have 1: "fst (apply_preset args c h0) = None"
    by (rule apply_preset_no_error)
  have 2: "fst (for_each (apply_task_arg args c) (map fst (tasks c)) h') = None" for h'
    by (rule for_each_no_error) (rule apply_task_arg_no_error)
  have 3: "fst (for_each (apply_option_arg args c) (map fst (options c)) h') = None" for h'
    by (rule for_each_no_error) (rule apply_option_arg_no_error)
  show ?thesis
    by (simp add: setup_fedorable_core_def init Let_def case_no_error 1 2 3)
qed

lemma apply_task_arg_same:
  "same_names_flags h0 h \<Longrightarrow> same_names_flags h0 (snd (apply_task_arg args c name h))"
  by (simp add: apply_task_arg_def set_task_enabled_same split: option.splits)

lemma apply_option_arg_same:
  "same_names_flags h0 h \<Longrightarrow> same_names_flags h0 (snd (apply_option_arg args c name h))"
  by (simp add: apply_option_arg_def set_option_enabled_same split: option.splits bool.splits)

lemma apply_preset_same: "same_names_flags h0 h \<Longrightarrow> same_names_flags h0 (snd (apply_preset args c h))"
  by (auto simp: apply_preset_def intro: for_each_preserves set_task_enabled_same)

lemma setup_fedorable_core_derived:
  "derived_flags (snd (setup_fedorable_core m args h))
     (fst (FedorableCore_init m (Some (arg_script_path args)) h))"
proof -
  let ?init = "FedorableCore_init m (Some (arg_script_path args)) h"
  let ?c = "fst ?init"
  let ?h1 = "snd (apply_preset args ?c (snd ?init))"
  let ?h2 = "snd (for_each (apply_task_arg args ?c) (map fst (tasks ?c)) ?h1)"
  let ?h3 = "snd (for_each (apply_option_arg args ?c) (map fst (options ?c)) ?h2)"
  have 1: "same_names_flags (snd ?init) ?h1"
    by (rule apply_preset_same) (rule same_names_flags_refl)
  have 2: "same_names_flags (snd ?init) ?h2"
    by (rule for_each_preserves) (simp_all add: apply_task_arg_same 1)
  have 3: "same_names_flags (snd ?init) ?h3"
    by (rule for_each_preserves) (simp_all add: apply_option_arg_same 2)
  have "derived_flags ?h3 ?c"
    using 3 init_derived_flags by (rule derived_flags_same)
  then show ?thesis
    by (simp add: setup_fedorable_core_eq Let_def)
qed

section \<open>Flags, instances and assignments\<close>

text \<open>
  C9. A task constructed without a flag has the flag \<open>--no-\<close> followed by its name with
  every underscore replaced by a hyphen; an option constructed without a flag has \<open>--\<close>
  followed by its name with every underscore replaced by a hyphen. No assignment of the
  program changes a flag (or a name) afterwards: not the two assignments to an enabled
  state, not the loops of the command-line front end, not the update from the widgets.
\<close>

theorem derived_flag_of_name:
  "task_flag (FedorableTask_init name description enabled None) = ''--no-'' @ hyphenate name
   \<and> option_flag (FedorableOption_init name description enabled None) = ''--'' @ hyphenate name
   \<and> same_names_flags h (snd (set_task_enabled c key value h))
   \<and> same_names_flags h (snd (set_option_enabled c key value h))
   \<and> same_names_flags h (snd (apply_preset args c h))
   \<and> same_names_flags h (snd (for_each (apply_task_arg args c) names h))
   \<and> same_names_flags h (snd (for_each (apply_option_arg args c) names h))
   \<and> same_names_flags h (snd (MainWindow_build_command c task_checkboxes option_switches h))"
proof (intro conjI)
  show "task_flag (FedorableTask_init name description enabled None) = ''--no-'' @ hyphenate name"
    by (simp add: FedorableTask_init_def str_replace_underscores hyphenate_def)
  show "option_flag (FedorableOption_init name description enabled None) = ''--'' @ hyphenate name"
    by (simp add: FedorableOption_init_def str_replace_underscores hyphenate_def)
  show "same_names_flags h (snd (set_task_enabled c key value h))"
    by (rule set_task_enabled_same) (rule same_names_flags_refl)
  show "same_names_flags h (snd (set_option_enabled c key value h))"
    by (rule set_option_enabled_same) (rule same_names_flags_refl)
  show "same_names_flags h (snd (apply_preset args c h))"
    by (rule apply_preset_same) (rule same_names_flags_refl)
  show "same_names_flags h (snd (for_each (apply_task_arg args c) names h))"
    by (rule for_each_preserves) (simp_all add: apply_task_arg_same same_names_flags_refl)
  show "same_names_flags h (snd (for_each (apply_option_arg args c) names h))"
    by (rule for_each_preserves) (simp_all add: apply_option_arg_same same_names_flags_refl)
  show "same_names_flags h (snd (MainWindow_build_command c task_checkboxes option_switches h))"
    by (rule MainWindow_build_command_same)
qed

text \<open>
  C10. In every instance, whatever the module's registry holds and whatever the store,
  the flag of each task is \<open>--no-\<close> followed by the hyphenated name of that task, and the
  flag of each option is \<open>--\<close> followed by the hyphenated name of that option: the
  constructor calls of \<open>__init__\<close> pass no flag, and an empty flag passed to a
  constructor is replaced by the derived one as well. The assignments the program makes
  afterwards keep this, on the instance they change and on every other one; so does the
  whole of \<open>setup_fedorable_core\<close>, which returns the instance it made.
\<close>

theorem instance_flags_derived:
  "derived_flags (snd (FedorableCore_init m path h)) (fst (FedorableCore_init m path h))
   \<and> task_flag (FedorableTask_init name description enabled (Some [])) = ''--no-'' @ hyphenate name
   \<and> option_flag (FedorableOption_init name description enabled (Some [])) = ''--'' @ hyphenate name
   \<and> (derived_flags h' c \<longrightarrow> derived_flags (snd (set_task_enabled c' key value h')) c)
   \<and> (derived_flags h' c \<longrightarrow> derived_flags (snd (set_option_enabled c' key value h')) c)
   \<and> (derived_flags h' c \<longrightarrow>
        derived_flags (snd (MainWindow_build_command c' task_checkboxes option_switches h')) c)
   \<and> fst (setup_fedorable_core m args h) = Inr (fst (FedorableCore_init m (Some (arg_script_path args)) h))
   \<and> derived_flags (snd (setup_fedorable_core m args h))
        (fst (FedorableCore_init m (Some (arg_script_path args)) h))"
proof (intro conjI impI)
  show "derived_flags (snd (FedorableCore_init m path h)) (fst (FedorableCore_init m path h))"
    by (rule init_derived_flags)
  show "task_flag (FedorableTask_init name description enabled (Some [])) = ''--no-'' @ hyphenate name"
    by (simp add: FedorableTask_init_def str_replace_underscores hyphenate_def)
  show "option_flag (FedorableOption_init name description enabled (Some [])) = ''--'' @ hyphenate name"
    by (simp add: FedorableOption_init_def str_replace_underscores hyphenate_def)
  show "derived_flags (snd (set_task_enabled c' key value h')) c" if "derived_flags h' c"
    using set_task_enabled_same [OF same_names_flags_refl] that by (rule derived_flags_same)
  show "derived_flags (snd (set_option_enabled c' key value h')) c" if "derived_flags h' c"
    using set_option_enabled_same [OF same_names_flags_refl] that by (rule derived_flags_same)
  show "derived_flags (snd (MainWindow_build_command c' task_checkboxes option_switches h')) c"
    if "derived_flags h' c"
    using MainWindow_build_command_same that by (rule derived_flags_same)
  show "fst (setup_fedorable_core m args h) =
          Inr (fst (FedorableCore_init m (Some (arg_script_path args)) h))"
    by (simp add: setup_fedorable_core_eq Let_def)
  show "derived_flags (snd (setup_fedorable_core m args h))
          (fst (FedorableCore_init m (Some (arg_script_path args)) h))"
    by (rule setup_fedorable_core_derived)
qed

lemmas override_defs =
  override_heap_def override_module_def new_task_def new_option_def empty_heap_def
  FedorableTask_init_def FedorableOption_init_def str_replace_underscores

theorem instance_flags_derived_witness:
  "task_flag (task_at override_heap 0) = ''--skip-dnf''
   \<and> option_flag (option_at override_heap 1) = ''-n''
   \<and> derived_flags (snd (FedorableCore_init override_module None override_heap))
        (fst (FedorableCore_init override_module None override_heap))
   \<and> task_flags (snd (FedorableCore_init override_module None override_heap))
        (fst (FedorableCore_init override_module None override_heap)) = [''--no-clean-dnf'']
   \<and> option_flags (snd (FedorableCore_init override_module None override_heap))
        (fst (FedorableCore_init override_module None override_heap)) = [''--dry-run'']
   \<and> derived_flags
        (snd (set_task_enabled (fst (FedorableCore_init override_module None override_heap))
               ''clean_dnf'' False (snd (FedorableCore_init override_module None override_heap))))
        (fst (FedorableCore_init override_module None override_heap))"
proof -
  let ?c = "fst (FedorableCore_init override_module None override_heap)"
  let ?h = "snd (FedorableCore_init override_module None override_heap)"
  note inst = instance_flags_derived [of override_module None override_heap _ _ _ ?h ?c ?c
      "''clean_dnf''" False]
  have 1: "derived_flags ?h ?c" using inst by blast
  have 2: "derived_flags (snd (set_task_enabled ?c ''clean_dnf'' False ?h)) ?c"
    using inst 1 by blast
  have 3: "task_flag (task_at override_heap 0) = ''--skip-dnf''"
    by (simp add: override_defs)
  have 4: "option_flag (option_at override_heap 1) = ''-n''"
    by (simp add: override_defs)
  have 5: "task_flags ?h ?c = [''--no-clean-dnf'']"
    by (simp add: task_flags_def init_fst init_snd alloc_simps copy_of_task_def
          copy_of_option_def override_defs)
  have 6: "option_flags ?h ?c = [''--dry-run'']"
    by (simp add: option_flags_def init_fst init_snd alloc_simps copy_of_task_def
          copy_of_option_def override_defs)
  show ?thesis using 1 2 3 4 5 6 by blast
qed

lemma example_instance_update: "map_of (tasks (fst (example_instance path))) ''update'' = Some 15"
  by (simp add: example_instance_tasks)

lemma example_instance_task_at:
  "task_at (snd (example_instance path)) 15 = FedorableTask_init ''update'' ''Update System Packages'' True None"
  "task_at (snd (example_instance path)) 25 = FedorableTask_init ''trim'' ''Run SSD TRIM'' True None"
  using example_instance_task_states [of path]
  by (simp_all add: task_states_def example_instance_tasks TASKS_literal_def)

lemma example_instance_option_at:
  "option_at (snd (example_instance path)) 29 = FedorableOption_init ''quiet'' ''Quiet Mode (Less output)'' False None"
  using example_instance_option_states [of path]
  by (simp_all add: option_states_def example_instance_options OPTIONS_literal_def)

theorem clone_independence_witness:
  "module_allocated (fst example_loaded) (snd example_loaded)
   \<and> FedorableCore_init (fst example_loaded) None (snd example_loaded) = example_instance None
   \<and> FedorableCore_init (fst example_loaded) (Some ''/tmp/fedorable.sh'') (snd (example_instance None))
       = example_second
   \<and> map_of (tasks (fst (example_instance None))) ''update'' = Some 15
   \<and> task_enabled (task_at (snd (example_instance None)) 15)
   \<and> \<not> task_enabled
         (task_at (snd (set_task_enabled (fst (example_instance None)) ''update'' False
                         (snd (example_instance None)))) 15)
   \<and> same_states (snd example_second)
        (snd (set_task_enabled (fst (example_instance None)) ''update'' False (snd example_second)))
        (tasks (fst example_second)) (options (fst example_second))
   \<and> same_states (snd example_second)
        (snd (set_task_enabled (fst (example_instance None)) ''update'' False (snd example_second)))
        (TASKS (fst example_loaded)) (OPTIONS (fst example_loaded))"
proof -
  have 1: "FedorableCore_init (fst example_loaded) None (snd example_loaded) =
             (fst (example_instance None), snd (example_instance None))"
    by (simp add: example_instance_def)
  have 2: "FedorableCore_init (fst example_loaded) (Some ''/tmp/fedorable.sh'') (snd (example_instance None)) =
             (fst example_second, snd example_second)"
    by (simp add: example_second_def)
  note inst = clone_independence [OF example_loaded_allocated 1 2, of "snd example_second" "''update''" False]
  have 3: "task_enabled (task_at (snd (example_instance None)) 15)"
    by (simp add: example_instance_task_at FedorableTask_init_def)
  have 4: "\<not> task_enabled
         (task_at (snd (set_task_enabled (fst (example_instance None)) ''update'' False
                         (snd (example_instance None)))) 15)"
    by (simp add: set_task_enabled_task_at example_instance_update)
  show ?thesis
    using inst 1 2 3 4 example_loaded_allocated example_instance_update [of None]
    by simp
qed

subsection \<open>One entry of a dictionary\<close>

lemma same_addr_same_key:
  "distinct (map snd items) \<Longrightarrow> (k, a) \<in> set items \<Longrightarrow> (k', a) \<in> set items \<Longrightarrow> k = k'"
proof -
  assume d: "distinct (map snd items)" and 1: "(k, a) \<in> set items" and 2: "(k', a) \<in> set items"
  have "inj_on snd (set items)" using d by (simp add: distinct_map)
  then have "(k, a) = (k', a)"
    using inj_onD [of snd "set items" "(k, a)" "(k', a)"] 1 2 by simp
  then show "k = k'" by simp
qed

lemma entry_of_name:
  assumes "distinct (map fst items)" and "distinct (map snd items)"
    and "map_of items name = Some a" and "(k, a') \<in> set items"
  shows "a' = a \<longleftrightarrow> k = name"
proof
  have mem: "(name, a) \<in> set items" using assms(3) by (rule map_of_SomeD)
  show "k = name" if "a' = a"
    using assms(2) assms(4) mem unfolding that by (rule same_addr_same_key)
  show "a' = a" if "k = name"
    using assms(1) assms(3) assms(4) unfolding that by simp
qed

lemma set_task_enabled_states:
  assumes "distinct (map fst (tasks c))" and "distinct (map snd (tasks c))"
    and "map_of (tasks c) name = Some a"
  shows "task_states (snd (set_task_enabled c name v h)) (tasks c) =
           map (\<lambda>(key, t). (key, if key = name then t\<lparr> task_enabled := v \<rparr> else t))
             (task_states h (tasks c))"
proof -
  have "task_at (snd (set_task_enabled c name v h)) a' =
          (if k = name then (task_at h a')\<lparr> task_enabled := v \<rparr> else task_at h a')"
    if "(k, a') \<in> set (tasks c)" for k a'
    using entry_of_name [OF assms that] by (auto simp: set_task_enabled_task_at assms(3))
  then show ?thesis
    by (auto simp: task_states_def)
qed

lemma set_option_enabled_states:
  assumes "distinct (map fst (options c))" and "distinct (map snd (options c))"
    and "map_of (options c) name = Some a"
  shows "option_states (snd (set_option_enabled c name v h)) (options c) =
           map (\<lambda>(key, opt). (key, if key = name then opt\<lparr> option_enabled := v \<rparr> else opt))
             (option_states h (options c))"
proof -
  have "option_at (snd (set_option_enabled c name v h)) a' =
          (if k = name then (option_at h a')\<lparr> option_enabled := v \<rparr> else option_at h a')"
    if "(k, a') \<in> set (options c)" for k a'
    using entry_of_name [OF assms that] by (auto simp: set_option_enabled_option_at assms(3))
  then show ?thesis
    by (auto simp: option_states_def)
qed

lemma guarded_absent:
  "map_of items name = None \<Longrightarrow> name \<notin> set (map fst items)"
  by (simp add: map_of_eq_None_iff)

lemma guarded_present:
  "map_of items name = Some a \<Longrightarrow> name \<in> set (map fst items)"
  by (metis map_of_eq_None_iff option.distinct(1) set_map)

text \<open>
  C7, as the program has it. With a name that is not a key of the dictionary, the plain
  assignment raises \<open>KeyError\<close> and leaves the store as it was; the guarded assignment
  of the main window raises nothing and leaves the store as it was. With a name that is a
  key, both set the enabled state of the one object under that key and change nothing
  else in the store; where the keys and the references of the dictionary are distinct, as
  in every instance, every other entry shows what it showed before, and so does the
  other dictionary. The loops of \<open>setup_fedorable_core\<close> run over the instance's own
  keys and never raise.
\<close>

theorem set_enabled_by_name:
  "(map_of (tasks c) name = None \<longrightarrow>
      set_task_enabled c name value h = (Some (KeyError name), h) \<and>
      guarded_set_task c (name, value) h = (None, h))
   \<and> (map_of (options c) name = None \<longrightarrow>
      set_option_enabled c name value h = (Some (KeyError name), h) \<and>
      guarded_set_option c (name, value) h = (None, h))
   \<and> (map_of (tasks c) name = Some a \<longrightarrow>
      set_task_enabled c name value h =
        (None, h\<lparr> task_at := (task_at h)(a := (task_at h a)\<lparr> task_enabled := value \<rparr>) \<rparr>) \<and>
      guarded_set_task c (name, value) h = set_task_enabled c name value h)
   \<and> (map_of (options c) name = Some a \<longrightarrow>
      set_option_enabled c name value h =
        (None, h\<lparr> option_at := (option_at h)(a := (option_at h a)\<lparr> option_enabled := value \<rparr>) \<rparr>) \<and>
      guarded_set_option c (name, value) h = set_option_enabled c name value h)
   \<and> (distinct (map fst (tasks c)) \<and> distinct (map snd (tasks c)) \<and> map_of (tasks c) name = Some a \<longrightarrow>
      task_states (snd (set_task_enabled c name value h)) (tasks c) =
        map (\<lambda>(key, t). (key, if key = name then t\<lparr> task_enabled := value \<rparr> else t))
          (task_states h (tasks c)) \<and>
      option_states (snd (set_task_enabled c name value h)) (options c) = option_states h (options c))
   \<and> (distinct (map fst (options c)) \<and> distinct (map snd (options c)) \<and>
        map_of (options c) name = Some a \<longrightarrow>
      option_states (snd (set_option_enabled c name value h)) (options c) =
        map (\<lambda>(key, opt). (key, if key = name then opt\<lparr> option_enabled := value \<rparr> else opt))
          (option_states h (options c)) \<and>
      task_states (snd (set_option_enabled c name value h)) (tasks c) = task_states h (tasks c))
   \<and> fst (apply_preset args c h) = None
   \<and> fst (for_each (apply_task_arg args c) (map fst (tasks c)) h) = None
   \<and> fst (for_each (apply_option_arg args c) (map fst (options c)) h) = None"
proof (intro conjI impI; (elim conjE)?)
  show "set_task_enabled c name value h = (Some (KeyError name), h)"
    if "map_of (tasks c) name = None"
    using that by (simp add: set_task_enabled_def)
  show "guarded_set_task c (name, value) h = (None, h)" if "map_of (tasks c) name = None"
    using guarded_absent [OF that] by (simp add: guarded_set_task_def)
  show "set_option_enabled c name value h = (Some (KeyError name), h)"
    if "map_of (options c) name = None"
    using that by (simp add: set_option_enabled_def)
  show "guarded_set_option c (name, value) h = (None, h)" if "map_of (options c) name = None"
    using guarded_absent [OF that] by (simp add: guarded_set_option_def)
  show "set_task_enabled c name value h =
          (None, h\<lparr> task_at := (task_at h)(a := (task_at h a)\<lparr> task_enabled := value \<rparr>) \<rparr>)"
    if "map_of (tasks c) name = Some a"
    using that by (simp add: set_task_enabled_def)
  show "guarded_set_task c (name, value) h = set_task_enabled c name value h"
    if "map_of (tasks c) name = Some a"
    using guarded_present [OF that] by (simp add: guarded_set_task_def)
  show "set_option_enabled c name value h =
          (None, h\<lparr> option_at := (option_at h)(a := (option_at h a)\<lparr> option_enabled := value \<rparr>) \<rparr>)"
    if "map_of (options c) name = Some a"
    using that by (simp add: set_option_enabled_def)
  show "guarded_set_option c (name, value) h = set_option_enabled c name value h"
    if "map_of (options c) name = Some a"
    using guarded_present [OF that] by (simp add: guarded_set_option_def)
  show "task_states (snd (set_task_enabled c name value h)) (tasks c) =
          map (\<lambda>(key, t). (key, if key = name then t\<lparr> task_enabled := value \<rparr> else t))
            (task_states h (tasks c))"
    if "distinct (map fst (tasks c))" "distinct (map snd (tasks c))" "map_of (tasks c) name = Some a"
    using that by (rule set_task_enabled_states)
  show "option_states (snd (set_task_enabled c name value h)) (options c) = option_states h (options c)"
    by (simp add: option_states_def set_task_enabled_option_at)
  show "option_states (snd (set_option_enabled c name value h)) (options c) =
          map (\<lambda>(key, opt). (key, if key = name then opt\<lparr> option_enabled := value \<rparr> else opt))
            (option_states h (options c))"
    if "distinct (map fst (options c))" "distinct (map snd (options c))"
      "map_of (options c) name = Some a"
    using that by (rule set_option_enabled_states)
  show "task_states (snd (set_option_enabled c name value h)) (tasks c) = task_states h (tasks c)"
    by (simp add: task_states_def set_option_enabled_task_at)
  show "fst (apply_preset args c h) = None"
    by (rule apply_preset_no_error)
  show "fst (for_each (apply_task_arg args c) (map fst (tasks c)) h) = None"
    by (rule for_each_no_error) (rule apply_task_arg_no_error)
  show "fst (for_each (apply_option_arg args c) (map fst (options c)) h) = None"
    by (rule for_each_no_error) (rule apply_option_arg_no_error)
qed

lemma disabled_task_flags_states:
  "disabled_task_flags h c =
     map (\<lambda>(key, t). task_flag t) (filter (\<lambda>(key, t). \<not> task_enabled t) (task_states h (tasks c)))"
  by (simp add: disabled_task_flags_def task_states_def filter_map comp_def case_prod_unfold)

lemma enabled_option_flags_states:
  "enabled_option_flags h c =
     map (\<lambda>(key, opt). option_flag opt)
       (filter (\<lambda>(key, opt). option_enabled opt) (option_states h (options c)))"
  by (simp add: enabled_option_flags_def option_states_def filter_map comp_def case_prod_unfold)

lemma example_instance_command:
  "build_command (snd (example_instance path)) (fst (example_instance path)) use_pkexec =
     (if use_pkexec then [''pkexec''] else []) @ [script_path (fst (example_instance path))]"
  by (simp add: build_command_eq disabled_task_flags_states enabled_option_flags_states
        example_instance_task_states example_instance_option_states
        TASKS_literal_def OPTIONS_literal_def FedorableTask_init_def FedorableOption_init_def)

lemma example_instance_distinct:
  "distinct (map fst (tasks (fst (example_instance path))))"
  "distinct (map snd (tasks (fst (example_instance path))))"
  by (simp_all add: example_instance_tasks)

theorem set_enabled_by_name_witness:
  "map_of (tasks (fst (example_instance None))) ''backup'' = None
   \<and> set_task_enabled (fst (example_instance None)) ''backup'' False (snd (example_instance None))
       = (Some (KeyError ''backup''), snd (example_instance None))
   \<and> guarded_set_task (fst (example_instance None)) (''backup'', False) (snd (example_instance None))
       = (None, snd (example_instance None))
   \<and> map_of (tasks (fst (example_instance None))) ''update'' = Some 15
   \<and> distinct (map fst (tasks (fst (example_instance None))))
   \<and> distinct (map snd (tasks (fst (example_instance None))))
   \<and> fst (set_task_enabled (fst (example_instance None)) ''update'' False (snd (example_instance None)))
       = None
   \<and> map (\<lambda>(key, t). (key, task_enabled t))
         (task_states
            (snd (set_task_enabled (fst (example_instance None)) ''update'' False
                    (snd (example_instance None))))
            (tasks (fst (example_instance None))))
       = [(''update'', False), (''autoremove'', True), (''clean_dnf'', True),
          (''clean_kernels'', True), (''clean_journal'', True), (''clean_temp'', True),
          (''update_grub'', True), (''clean_flatpak'', True), (''optimize_rpmdb'', True),
          (''reset_failed_units'', True), (''trim'', True)]
   \<and> option_states
         (snd (set_task_enabled (fst (example_instance None)) ''update'' False
                 (snd (example_instance None))))
         (options (fst (example_instance None)))
       = OPTIONS_literal"
proof -
  let ?c = "fst (example_instance None)"
  let ?h = "snd (example_instance None)"
  have absent: "map_of (tasks ?c) ''backup'' = None"
    by (simp add: example_instance_tasks)
  have present: "map_of (tasks ?c) ''update'' = Some 15"
    by (rule example_instance_update)
  note d = example_instance_distinct [of None]
  note a = set_enabled_by_name [of ?c "''backup''" False ?h]
  note p = set_enabled_by_name [of ?c "''update''" False ?h 15]
  have 1: "set_task_enabled ?c ''backup'' False ?h = (Some (KeyError ''backup''), ?h)"
    and 2: "guarded_set_task ?c (''backup'', False) ?h = (None, ?h)"
    using a absent by blast+
  have 3: "fst (set_task_enabled ?c ''update'' False ?h) = None"
    using p present by simp
  have 4: "task_states (snd (set_task_enabled ?c ''update'' False ?h)) (tasks ?c) =
             map (\<lambda>(key, t). (key, if key = ''update'' then t\<lparr> task_enabled := False \<rparr> else t))
               (task_states ?h (tasks ?c))"
    and 5: "option_states (snd (set_task_enabled ?c ''update'' False ?h)) (options ?c) =
              option_states ?h (options ?c)"
    using p present d by blast+
  have 6: "map (\<lambda>(key, t). (key, task_enabled t))
         (task_states (snd (set_task_enabled ?c ''update'' False ?h)) (tasks ?c))
       = [(''update'', False), (''autoremove'', True), (''clean_dnf'', True),
          (''clean_kernels'', True), (''clean_journal'', True), (''clean_temp'', True),
          (''update_grub'', True), (''clean_flatpak'', True), (''optimize_rpmdb'', True),
          (''reset_failed_units'', True), (''trim'', True)]"
    unfolding 4 example_instance_task_states
    by (simp add: TASKS_literal_def FedorableTask_init_def)
  show ?thesis
    using absent present d 1 2 3 6 5 example_instance_option_states [of None]
    by simp
qed

theorem set_enabled_by_name_counterexample:
  "map_of (tasks (fst (example_instance None))) ''backup'' = None
   \<and> MainWindow_build_command (fst (example_instance None)) [(''backup'', False)] []
         (snd (example_instance None))
       = (Inr [''pkexec'', ''/usr/share/fedorable/fedorable.sh''], snd (example_instance None))"
proof -
  let ?c = "fst (example_instance None)"
  let ?h = "snd (example_instance None)"
  have absent: "map_of (tasks ?c) ''backup'' = None"
    by (simp add: example_instance_tasks)
  have "guarded_set_task ?c (''backup'', False) ?h = (None, ?h)"
    using guarded_absent [OF absent] by (simp add: guarded_set_task_def)
  then show ?thesis
    using absent
    by (simp add: MainWindow_build_command_eq example_instance_command example_instance_path)
qed

subsection \<open>Counting a flag in the command\<close>

lemma count_list_absent: "y \<notin> set (map f xs) \<Longrightarrow> count_list (map f (filter P xs)) y = 0"
  by (induction xs) auto

lemma count_list_map_filter:
  "distinct (map f xs) \<Longrightarrow> x \<in> set xs \<Longrightarrow>
     count_list (map f (filter P xs)) (f x) = (if P x then 1 else 0)"
proof (induction xs)
  case Nil
  then show ?case by simp
next
  case (Cons y ys)
  show ?case
  proof (cases "x = y")
    case True
    have "f y \<notin> set (map f ys)" using Cons.prems(1) by simp
    then have "count_list (map f (filter P ys)) (f y) = 0" by (rule count_list_absent)
    then show ?thesis using True by simp
  next
    case False
    then have "x \<in> set ys" using Cons.prems(2) by simp
    moreover have "f y \<noteq> f x" using Cons.prems(1) \<open>x \<in> set ys\<close> by auto
    moreover have "distinct (map f ys)" using Cons.prems(1) by simp
    ultimately show ?thesis using Cons.IH by simp
  qed
qed

lemma registry_task_flags_eq:
  "registry_task_flags =
     [''--no-update'', ''--no-autoremove'', ''--no-clean-dnf'', ''--no-clean-kernels'',
      ''--no-clean-journal'', ''--no-clean-temp'', ''--no-update-grub'', ''--no-clean-flatpak'',
      ''--no-optimize-rpmdb'', ''--no-reset-failed-units'', ''--no-trim'']"
  by (simp add: registry_task_flags_def TASKS_literal_def FedorableTask_init_def
        str_replace_underscores)

lemma registry_option_flags_eq:
  "registry_option_flags = [''--yes'', ''--dry-run'', ''--check-only'', ''--quiet'']"
  by (simp add: registry_option_flags_def OPTIONS_literal_def FedorableOption_init_def
        str_replace_underscores)

lemma registry_flags_distinct: "distinct (registry_task_flags @ registry_option_flags)"
  by (simp add: registry_task_flags_eq registry_option_flags_eq)

lemma pkexec_no_flag: "''pkexec'' \<notin> set (registry_task_flags @ registry_option_flags)"
  by (simp add: registry_task_flags_eq registry_option_flags_eq)

lemma count_task_flag:
  assumes flags: "has_registry_flags h c"
    and path: "script_path c \<notin> set registry_task_flags \<union> set registry_option_flags"
    and mem: "(key, a) \<in> set (tasks c)"
  shows "count_list (build_command h c use_pkexec) (task_flag (task_at h a)) =
           (if task_enabled (task_at h a) then 0 else 1)"
proof -
  let ?f = "\<lambda>(key, a). task_flag (task_at h a)"
  let ?g = "\<lambda>(key, a). option_flag (option_at h a)"
  let ?flag = "task_flag (task_at h a)"
  have tf: "map ?f (tasks c) = registry_task_flags" and "map ?g (options c) = registry_option_flags"
    using flags by (simp_all add: has_registry_flags_def task_flags_def option_flags_def)
  have in_reg: "?flag \<in> set registry_task_flags"
    unfolding tf [symmetric] using mem by force
  have 1: "?flag \<noteq> ''pkexec''"
    using in_reg pkexec_no_flag by auto
  have 2: "?flag \<noteq> script_path c"
    using in_reg path by auto
  have "distinct (map ?f (tasks c))"
    unfolding tf using registry_flags_distinct by simp
  then have 3: "count_list (disabled_task_flags h c) ?flag = (if task_enabled (task_at h a) then 0 else 1)"
    unfolding disabled_task_flags_def
    using count_list_map_filter [of ?f "tasks c" "(key, a)" "\<lambda>(key, a). \<not> task_enabled (task_at h a)"] mem
    by simp
  have "?flag \<notin> set (map ?g (options c))"
    unfolding \<open>map ?g (options c) = registry_option_flags\<close>
    using in_reg registry_flags_distinct by auto
  then have 4: "count_list (enabled_option_flags h c) ?flag = 0"
    unfolding enabled_option_flags_def by (rule count_list_absent)
  show ?thesis
    using 1 2 3 4 by (simp add: build_command_eq)
qed

lemma count_option_flag:
  assumes flags: "has_registry_flags h c"
    and path: "script_path c \<notin> set registry_task_flags \<union> set registry_option_flags"
    and mem: "(key, a) \<in> set (options c)"
  shows "count_list (build_command h c use_pkexec) (option_flag (option_at h a)) =
           (if option_enabled (option_at h a) then 1 else 0)"
proof -
  let ?f = "\<lambda>(key, a). task_flag (task_at h a)"
  let ?g = "\<lambda>(key, a). option_flag (option_at h a)"
  let ?flag = "option_flag (option_at h a)"
  have tf: "map ?f (tasks c) = registry_task_flags" and "map ?g (options c) = registry_option_flags"
    using flags by (simp_all add: has_registry_flags_def task_flags_def option_flags_def)
  have in_reg: "?flag \<in> set registry_option_flags"
    unfolding \<open>map ?g (options c) = registry_option_flags\<close> [symmetric] using mem by force
  have 1: "?flag \<noteq> ''pkexec''"
    using in_reg pkexec_no_flag by auto
  have 2: "?flag \<noteq> script_path c"
    using in_reg path by auto
  have "distinct (map ?g (options c))"
    unfolding \<open>map ?g (options c) = registry_option_flags\<close> using registry_flags_distinct by simp
  then have 3: "count_list (enabled_option_flags h c) ?flag = (if option_enabled (option_at h a) then 1 else 0)"
    unfolding enabled_option_flags_def
    using count_list_map_filter [of ?g "options c" "(key, a)" "\<lambda>(key, a). option_enabled (option_at h a)"] mem
    by simp
  have "?flag \<notin> set (map ?f (tasks c))"
    unfolding tf using in_reg registry_flags_distinct by auto
  then have 4: "count_list (disabled_task_flags h c) ?flag = 0"
    unfolding disabled_task_flags_def by (rule count_list_absent)
  show ?thesis
    using 1 2 3 4 by (simp add: build_command_eq)
qed

lemma task_flags_states: "task_flags h c = map (\<lambda>(key, t). task_flag t) (task_states h (tasks c))"
  by (simp add: task_flags_def task_states_def comp_def case_prod_unfold)

lemma option_flags_states:
  "option_flags h c = map (\<lambda>(key, opt). option_flag opt) (option_states h (options c))"
  by (simp add: option_flags_def option_states_def comp_def case_prod_unfold)

lemma loaded_instance_flags:
  "has_registry_flags
     (snd (FedorableCore_init (fst (load_core_module default_path h0)) path
             (snd (load_core_module default_path h0))))
     (fst (FedorableCore_init (fst (load_core_module default_path h0)) path
             (snd (load_core_module default_path h0))))"
proof -
  let ?m = "fst (load_core_module default_path h0)"
  let ?h = "snd (load_core_module default_path h0)"
  have ts: "task_states (snd (FedorableCore_init ?m path ?h)) (tasks (fst (FedorableCore_init ?m path ?h)))
          = map (\<lambda>(key, t). (key, copy_of_task t)) TASKS_literal"
    using init_task_states [OF load_allocated, of default_path h0 path]
    by (simp add: load_task_states)
  have os: "option_states (snd (FedorableCore_init ?m path ?h))
            (options (fst (FedorableCore_init ?m path ?h)))
          = map (\<lambda>(key, opt). (key, copy_of_option opt)) OPTIONS_literal"
    using init_option_states [OF load_allocated, of default_path h0 path]
    by (simp add: load_option_states)
  have 1: "map (\<lambda>(key, t). task_flag t) (map (\<lambda>(key, t). (key, copy_of_task t)) TASKS_literal)
             = registry_task_flags"
    by (simp add: registry_task_flags_def TASKS_literal_def copy_of_task_def FedorableTask_init_def)
  have 2: "map (\<lambda>(key, opt). option_flag opt)
             (map (\<lambda>(key, opt). (key, copy_of_option opt)) OPTIONS_literal)
             = registry_option_flags"
    by (simp add: registry_option_flags_def OPTIONS_literal_def copy_of_option_def
          FedorableOption_init_def)
  show ?thesis
    unfolding has_registry_flags_def task_flags_states option_flags_states ts os
    using 1 2 by simp
qed

lemma has_registry_flags_same:
  "same_names_flags h h' \<Longrightarrow> has_registry_flags h c \<Longrightarrow> has_registry_flags h' c"
  by (simp add: same_names_flags_def has_registry_flags_def task_flags_def option_flags_def)

lemma example_instance_options_distinct:
  "distinct (map fst (options (fst (example_instance path))))"
  "distinct (map snd (options (fst (example_instance path))))"
  by (simp_all add: example_instance_options)

text \<open>
  C4, as the program has it. For every instance that carries the flags of the registry
  (every instance made from the loaded module does, whatever has been set since) and
  whose script path is not itself one of these flags: the command holds the flag of a
  task not at all if the task is enabled and exactly once if it is not, and the flag of
  an option exactly once if the option is enabled and not at all if it is not.
\<close>

theorem flag_once_or_absent:
  assumes "has_registry_flags h c"
    and "script_path c \<notin> set registry_task_flags \<union> set registry_option_flags"
  shows "(\<forall>(key, a) \<in> set (tasks c).
            count_list (build_command h c use_pkexec) (task_flag (task_at h a)) =
              (if task_enabled (task_at h a) then 0 else 1))
       \<and> (\<forall>(key, a) \<in> set (options c).
            count_list (build_command h c use_pkexec) (option_flag (option_at h a)) =
              (if option_enabled (option_at h a) then 1 else 0))"
  using count_task_flag [OF assms] count_option_flag [OF assms] by blast

text \<open>
  In the example the task \<open>update\<close> is disabled and the option \<open>quiet\<close> enabled on a
  new instance with the default path.
\<close>

theorem flag_once_or_absent_witness:
  "has_registry_flags
     (snd (set_option_enabled (fst (example_instance None)) ''quiet'' True
        (snd (set_task_enabled (fst (example_instance None)) ''update'' False
           (snd (example_instance None))))))
     (fst (example_instance None))
   \<and> script_path (fst (example_instance None)) \<notin> set registry_task_flags \<union> set registry_option_flags
   \<and> build_command
        (snd (set_option_enabled (fst (example_instance None)) ''quiet'' True
           (snd (set_task_enabled (fst (example_instance None)) ''update'' False
              (snd (example_instance None))))))
        (fst (example_instance None)) True
       = [''pkexec'', ''/usr/share/fedorable/fedorable.sh'', ''--no-update'', ''--quiet'']
   \<and> count_list
        (build_command
           (snd (set_option_enabled (fst (example_instance None)) ''quiet'' True
              (snd (set_task_enabled (fst (example_instance None)) ''update'' False
                 (snd (example_instance None))))))
           (fst (example_instance None)) True) ''--no-update'' = 1
   \<and> count_list
        (build_command
           (snd (set_option_enabled (fst (example_instance None)) ''quiet'' True
              (snd (set_task_enabled (fst (example_instance None)) ''update'' False
                 (snd (example_instance None))))))
           (fst (example_instance None)) True) ''--no-trim'' = 0
   \<and> count_list
        (build_command
           (snd (set_option_enabled (fst (example_instance None)) ''quiet'' True
              (snd (set_task_enabled (fst (example_instance None)) ''update'' False
                 (snd (example_instance None))))))
           (fst (example_instance None)) True) ''--quiet'' = 1"
proof -
  let ?c = "fst (example_instance None)"
  let ?start = "snd (example_instance None)"
  let ?mid = "snd (set_task_enabled ?c ''update'' False ?start)"
  let ?h = "snd (set_option_enabled ?c ''quiet'' True ?mid)"
  have same: "same_names_flags ?start ?h"
    by (intro set_option_enabled_same set_task_enabled_same same_names_flags_refl)
  have "has_registry_flags ?start ?c"
    unfolding example_instance_def example_loaded_def by (rule loaded_instance_flags)
  with same have flags: "has_registry_flags ?h ?c"
    by (rule has_registry_flags_same)
  have path: "script_path ?c \<notin> set registry_task_flags \<union> set registry_option_flags"
    by (simp add: example_instance_path registry_task_flags_eq registry_option_flags_eq)
  note inst = flag_once_or_absent [OF flags path, of True]
  have quiet: "map_of (options ?c) ''quiet'' = Some 29"
    by (simp add: example_instance_options)
  have update: "task_at ?h 15 = (FedorableTask_init ''update'' ''Update System Packages'' True None)\<lparr> task_enabled := False \<rparr>"
    by (simp add: set_option_enabled_task_at set_task_enabled_task_at example_instance_update
          example_instance_task_at)
  have trim: "task_at ?h 25 = FedorableTask_init ''trim'' ''Run SSD TRIM'' True None"
    by (simp add: set_option_enabled_task_at set_task_enabled_task_at example_instance_update
          example_instance_task_at)
  have q: "option_at ?h 29 = (FedorableOption_init ''quiet'' ''Quiet Mode (Less output)'' False None)\<lparr> option_enabled := True \<rparr>"
    by (simp add: set_option_enabled_option_at quiet set_task_enabled_option_at
          example_instance_option_at)
  have 1: "count_list (build_command ?h ?c True) ''--no-update'' = 1"
    using inst update by (auto simp: example_instance_tasks FedorableTask_init_def str_replace_underscores)
  have 2: "count_list (build_command ?h ?c True) ''--no-trim'' = 0"
    using inst trim by (auto simp: example_instance_tasks FedorableTask_init_def str_replace_underscores)
  have 3: "count_list (build_command ?h ?c True) ''--quiet'' = 1"
    using inst q by (auto simp: example_instance_options FedorableOption_init_def str_replace_underscores)
  have ts: "task_states ?h (tasks ?c) =
      map (\<lambda>(key, t). (key, if key = ''update'' then t\<lparr> task_enabled := False \<rparr> else t)) TASKS_literal"
    using set_task_enabled_states [OF example_instance_distinct example_instance_update, of None False ?start]
    by (simp add: task_states_def set_option_enabled_task_at example_instance_task_states [unfolded task_states_def])
  have os: "option_states ?h (options ?c) =
      map (\<lambda>(key, opt). (key, if key = ''quiet'' then opt\<lparr> option_enabled := True \<rparr> else opt))
        OPTIONS_literal"
    using set_option_enabled_states [OF example_instance_options_distinct quiet, of True ?mid]
    by (simp add: option_states_def set_task_enabled_option_at
          example_instance_option_states [unfolded option_states_def])
  have 4: "build_command ?h ?c True =
      [''pkexec'', ''/usr/share/fedorable/fedorable.sh'', ''--no-update'', ''--quiet'']"
    unfolding build_command_eq disabled_task_flags_states enabled_option_flags_states ts os
    by (simp add: example_instance_path TASKS_literal_def OPTIONS_literal_def
          FedorableTask_init_def FedorableOption_init_def str_replace_underscores)
  show ?thesis
    using flags path 1 2 3 4 by simp
qed

theorem flag_once_or_absent_counterexample:
  "(''update'', 15) \<in> set (tasks (fst (example_instance (Some ''--no-update''))))
   \<and> task_enabled (task_at (snd (example_instance (Some ''--no-update''))) 15)
   \<and> task_flag (task_at (snd (example_instance (Some ''--no-update''))) 15) = ''--no-update''
   \<and> build_command (snd (example_instance (Some ''--no-update'')))
         (fst (example_instance (Some ''--no-update''))) False = [''--no-update'']
   \<and> count_list
         (build_command (snd (example_instance (Some ''--no-update'')))
            (fst (example_instance (Some ''--no-update''))) False) ''--no-update'' = 1"
  by (simp add: example_instance_tasks example_instance_task_at example_instance_command
        example_instance_path FedorableTask_init_def str_replace_underscores)

section \<open>The token sequence\<close>

text \<open>
  C1. For every instance, every store and both values of \<open>use_pkexec\<close>,
  \<open>build_command\<close> returns exactly: \<open>pkexec\<close> if \<open>use_pkexec\<close>, then the script
  path, then the flag of every task that is not enabled, in dictionary order, then the
  flag of every option that is enabled, in dictionary order. Enabled tasks and disabled
  options contribute nothing.
\<close>

theorem build_command_tokens:
  "build_command h c use_pkexec =
     (if use_pkexec then [''pkexec''] else []) @ [script_path c]
       @ disabled_task_flags h c @ enabled_option_flags h c"
  by (rule build_command_eq)

section \<open>The runner\<close>

subsection \<open>One stream\<close>

lemma delivered_simps [simp]:
  "delivered e [] = []"
  "delivered e (cs @ [(line, e')]) = (if e' = e then delivered e cs @ [line] else delivered e cs)"
  by (simp_all add: delivered_def)

lemma decoded_simps [simp]:
  "decoded [] = []"
  "decoded (None # cs) = None # decoded cs"
  "decoded (Some (body, t) # cs) = Some (python_text body t) # decoded cs"
  "decoded (cs @ ds) = decoded cs @ decoded ds"
  by (simp_all add: decoded_def)










subsection \<open>Steps keep the invariant\<close>


















subsection \<open>Every activity runs to its end\<close>

































text \<open>
  C5. If the script path does not exist or is not executable, \<open>is_script_executable\<close>
  is false and \<open>run\<close>, with or without a callback and under every schedule, raises
  \<open>FileNotFoundError\<close> with the path in its message; no process has been started (the
  operating system is as it was, the list of started processes included) and the
  callback has not been called. \<open>run\<close> has only the store to read the configuration
  from and returns none: the configuration is as it was.
\<close>

theorem run_script_unavailable:
  assumes "\<not> path_exists os (script_path c) \<or> \<not> access_x os (script_path c)"
  shows "\<not> is_script_executable os c
       \<and> run sched h c use_pkexec callback os =
           \<lparr> outcome = Raised (FileNotFoundError
                  (''Script not found or not executable: '' @ script_path c)),
             calls = [], os_after = os \<rparr>
       \<and> launched (os_after (run sched h c use_pkexec callback os)) = launched os"
proof -
  have "\<not> is_script_executable os c"
    using assms by (auto simp: is_script_executable_def)
  then show ?thesis
    by (simp add: run_def)
qed



theorem run_script_unavailable_witness:
  "path_exists not_executable_os (script_path (fst (example_instance None)))
   \<and> \<not> access_x not_executable_os (script_path (fst (example_instance None)))
   \<and> program not_executable_os
        (build_command (snd (example_instance None)) (fst (example_instance None)) True)
       = Inr example_child
   \<and> run (drain_schedule example_child) (snd (example_instance None))
        (fst (example_instance None)) True (Some quiet_callback) not_executable_os =
       \<lparr> outcome = Raised (FileNotFoundError
              ''Script not found or not executable: /usr/share/fedorable/fedorable.sh''),
         calls = [], os_after = not_executable_os \<rparr>
   \<and> launched (os_after (run (drain_schedule example_child) (snd (example_instance None))
        (fst (example_instance None)) True (Some quiet_callback) not_executable_os)) = []"
proof -
  have pre: "\<not> path_exists not_executable_os (script_path (fst (example_instance None))) \<or>
    \<not> access_x not_executable_os (script_path (fst (example_instance None)))"
    by (simp add: not_executable_os_def)
  note inst = run_script_unavailable [OF pre, of "drain_schedule example_child"
      "snd (example_instance None)" True "Some quiet_callback"]
  show ?thesis
    using inst pre by (simp add: example_instance_path not_executable_os_def)
qed





section \<open>The main window beside the command line\<close>

















end
